theory Spec2Isabelle
  imports Complex_Main "HOL-Library.Sublist"
begin

section \<open>JavaScript string and array primitives used by the turn pipeline\<close>

text \<open>
  A JavaScript string is modelled as a \<^typ>\<open>string\<close>: one \<^typ>\<open>char\<close> per code unit, for
  the code units 0 to 255. \<open>isWhiteSpace\<close> is the ECMAScript WhiteSpace and LineTerminator
  set in that range (TAB, LF, VT, FF, CR, SP, NBSP); it is what \<open>String.prototype.trim\<close>
  removes and what \<open>\s\<close> matches in a regular expression.
\<close>

definition isWhiteSpace :: "char \<Rightarrow> bool" where
  "isWhiteSpace c =
     (c = CHR 0x09 \<or> c = CHR 0x0A \<or> c = CHR 0x0B \<or> c = CHR 0x0C \<or> c = CHR 0x0D
      \<or> c = CHR 0x20 \<or> c = CHR 0xA0)"

definition trim :: "string \<Rightarrow> string" where
  "trim s = rev (dropWhile isWhiteSpace (rev (dropWhile isWhiteSpace s)))"

text \<open>\<open>xs.join(sep)\<close> on an array of strings.\<close>

fun join :: "string \<Rightarrow> string list \<Rightarrow> string" where
  "join sep [] = []"
| "join sep [x] = x"
| "join sep (x # y # ys) = x @ sep @ join sep (y # ys)"

text \<open>
  \<open>xs.slice(start)\<close> with one argument, for arrays and strings: a negative start counts
  from the end and is clamped at 0, a start beyond the length is clamped at the length.
  In particular \<open>slice(-0)\<close> is \<open>slice(0)\<close>: the whole array.
\<close>

definition slice :: "int \<Rightarrow> 'a list \<Rightarrow> 'a list" where
  "slice start xs =
     (let len = int (length xs);
          k = (if start < 0 then max (len + start) 0 else min start len)
      in drop (nat k) xs)"

text \<open>\<open>s.includes(t)\<close>: \<open>t\<close> occurs in \<open>s\<close> as a contiguous substring.\<close>

fun includesStr :: "string \<Rightarrow> string \<Rightarrow> bool" where
  "includesStr [] t = (t = [])"
| "includesStr (c # s) t = (prefix t (c # s) \<or> includesStr s t)"

text \<open>\<open>[a, b, ...].filter(Boolean)\<close> on strings that may be null or undefined.\<close>

fun filterBoolean :: "string option list \<Rightarrow> string list" where
  "filterBoolean [] = []"
| "filterBoolean (None # xs) = filterBoolean xs"
| "filterBoolean (Some s # xs) = (if s = [] then filterBoolean xs else s # filterBoolean xs)"

text \<open>
  A JavaScript number that results from a division. A finite value is kept as an exact
  rational, where the code has the nearest double: rounding is not modelled. Division by
  zero is as in IEEE arithmetic: it gives an infinity, or NaN for 0 / 0 (the sign of a
  zero is not modelled).
\<close>

datatype JsNumber = Finite rat | PosInfinity | NegInfinity | NaN

definition jsDivide :: "rat \<Rightarrow> rat \<Rightarrow> JsNumber" where
  "jsDivide x d =
     (if d = 0 then (if x = 0 then NaN else if 0 < x then PosInfinity else NegInfinity)
      else Finite (x / d))"

abbreviation blankLine :: string where
  "blankLine \<equiv> [CHR 0x0A, CHR 0x0A]"

abbreviation newline :: string where
  "newline \<equiv> [CHR 0x0A]"


section \<open>messageUtils.ts: prompt entries\<close>

datatype role = System | User | Assistant

record ChatMessage =
  role :: role
  content :: string

subsection \<open>mergeConsecutiveRoles\<close>

text \<open>
  One iteration of the \<open>for (const msg of messages)\<close> loop, on the array \<open>merged\<close> built
  so far: an entry whose trimmed content is empty is skipped; an entry with the role of
  the last merged entry is joined onto it; any other entry is pushed.
\<close>

definition mergeStep :: "ChatMessage list \<Rightarrow> ChatMessage \<Rightarrow> ChatMessage list" where
  "mergeStep merged msg =
     (let c = content msg in
      if trim c = [] then merged
      else if merged \<noteq> [] \<and> role (last merged) = role msg
        then butlast merged @
             [(last merged)\<lparr>content :=
                 join blankLine (filter (\<lambda>s. s \<noteq> []) [content (last merged), c])\<rparr>]
        else merged @ [\<lparr>role = role msg, content = c\<rparr>])"

definition mergeConsecutiveRoles :: "ChatMessage list \<Rightarrow> ChatMessage list" where
  "mergeConsecutiveRoles messages = foldl mergeStep [] messages"

subsection \<open>What merging is meant to compute\<close>

text \<open>
  The specification of merging, written independently of the loop: the entries are cut
  into maximal runs of equal role, and each run becomes one entry whose content is the
  contents of the run joined by a blank line.
\<close>

fun roleRuns :: "ChatMessage list \<Rightarrow> ChatMessage list list" where
  "roleRuns [] = []"
| "roleRuns (m # ms) =
     (case roleRuns ms of
        [] \<Rightarrow> [[m]]
      | g # gs \<Rightarrow> (if role (hd g) = role m then (m # g) # gs else [m] # g # gs))"

definition joinRun :: "ChatMessage list \<Rightarrow> ChatMessage" where
  "joinRun g = \<lparr>role = role (hd g), content = join blankLine (map content g)\<rparr>"

definition nonBlank :: "ChatMessage \<Rightarrow> bool" where
  "nonBlank m = (trim (content m) \<noteq> [])"


subsection \<open>stripInternalContextBlocks\<close>

text \<open>
  The regular expression
  \<^verbatim>\<open>/<details\s+class="internal-context"[^>]*>[\s\S]*?<\/details>/gi\<close>
  is matched by hand. The flag \<open>i\<close> folds the ASCII letters only. After the literal
  \<open><details\<close>, the greedy \<open>\s+\<close> takes every white-space character and needs one at
  least (the literal after it starts with a letter, so giving characters back never
  helps); the greedy \<open>[^>]*\<close> runs to the first \<open>>\<close>; the lazy \<open>[\s\S]*?\<close> stops at
  the first \<open></details>\<close>.
\<close>

definition toLowerAscii :: "char \<Rightarrow> char" where
  "toLowerAscii c =
     (case map_of (zip ''ABCDEFGHIJKLMNOPQRSTUVWXYZ'' ''abcdefghijklmnopqrstuvwxyz'') c of
        None \<Rightarrow> c
      | Some l \<Rightarrow> l)"

text \<open>
  \<open>matchLiteral p s\<close>: the lower-case literal \<open>p\<close> matches at the start of \<open>s\<close>, ignoring
  case; the result is the rest of \<open>s\<close> after the match.
\<close>

fun matchLiteral :: "string \<Rightarrow> string \<Rightarrow> string option" where
  "matchLiteral [] s = Some s"
| "matchLiteral (p # ps) [] = None"
| "matchLiteral (p # ps) (c # s) = (if toLowerAscii c = p then matchLiteral ps s else None)"

definition matchOpenTag :: "string \<Rightarrow> string option" where
  \<open>matchOpenTag s =
     (case matchLiteral ''<details'' s of
        None \<Rightarrow> None
      | Some r1 \<Rightarrow>
          (let r2 = dropWhile isWhiteSpace r1 in
           if length r2 = length r1 then None
           else (case matchLiteral ''class="internal-context"'' r2 of
                   None \<Rightarrow> None
                 | Some r3 \<Rightarrow>
                     (case dropWhile (\<lambda>c. c \<noteq> CHR ''>'') r3 of
                        [] \<Rightarrow> None
                      | gt # r4 \<Rightarrow> Some r4))))\<close>

fun skipToClose :: "string \<Rightarrow> string option" where
  "skipToClose [] = None"
| "skipToClose (c # s) =
     (case matchLiteral ''</details>'' (c # s) of
        Some r \<Rightarrow> Some r
      | None \<Rightarrow> skipToClose s)"

text \<open>
  \<open>matchBlock s\<close>: the whole expression matches at the start of \<open>s\<close>; the result is the
  number of characters the match covers.
\<close>

definition matchBlock :: "string \<Rightarrow> nat option" where
  "matchBlock s =
     (case matchOpenTag s of
        None \<Rightarrow> None
      | Some r \<Rightarrow> (case skipToClose r of None \<Rightarrow> None | Some r' \<Rightarrow> Some (length s - length r')))"

text \<open>
  \<open>.replace(re, '')\<close> with the flag \<open>g\<close>: scan from the left; where the expression
  matches, drop the match and go on behind it; elsewhere keep the character and move on
  by one. The first argument counts the characters of the current match still to drop.
\<close>

fun removeBlocks :: "nat \<Rightarrow> string \<Rightarrow> string" where
  "removeBlocks k [] = []"
| "removeBlocks (Suc k) (c # s) = removeBlocks k s"
| "removeBlocks 0 (c # s) =
     (case matchBlock (c # s) of
        Some n \<Rightarrow> removeBlocks (n - 1) s
      | None \<Rightarrow> c # removeBlocks 0 s)"

definition stripInternalContextBlocks :: "string \<Rightarrow> string" where
  "stripInternalContextBlocks c = (if c = [] then [] else trim (removeBlocks 0 c))"

subsection \<open>Chats, messages and settings (types/chats.ts, types/settings.ts)\<close>

datatype AttachmentType = TEXT | IMAGE

record FileMeta =
  file_name :: string
  file_size :: nat
  file_lastModified :: int

record Attachment =
  att_content :: string
  att_type :: AttachmentType
  att_meta :: FileMeta

text \<open>
  The attachment argument of \<open>sendMessage\<close> and \<open>buildOllamaRequestBody\<close>: null or
  undefined, the empty object (the input component passes
  \<open>{ ...attachmentContent.value }\<close>, which is \<open>{}\<close> when nothing is attached), or an
  attachment.
\<close>

datatype AttachmentArg = NoAttachment | EmptyObject | Given Attachment

record AttachmentMeta =
  meta_type :: AttachmentType
  meta_name :: string
  meta_size :: nat
  meta_lastModified :: int

record Message =
  msg_id :: string
  msg_content :: string
  msg_role :: role
  msg_timestamp :: int
  attachmentMeta :: "AttachmentMeta option"
  attachmentContent :: "string option"
  isLoading :: "bool option"
  thinkTime :: "int option"
  isThinking :: "bool option"
  firstTokenMs :: "int option"
  responseMs :: "int option"
  outputChars :: "nat option"
  speedCps :: "JsNumber option"

record Chat =
  chat_id :: string
  title :: string
  chat_timestamp :: int
  systemPrompt :: "string option"
  messages :: "Message list"

text \<open>
  The settings the turn pipeline reads. \<open>maxMessages\<close> is declared as one of 5, 10, 20, 50
  and 100 and arrives as a plain number; the code guards it with \<open>|| 20\<close>.
\<close>

record Settings =
  maxMessages :: int
  selectedModel :: string
  systemModel :: string
  defaultChatTitle :: string

subsection \<open>buildOllamaRequestBody\<close>

datatype ThinkOption = ThinkFlag bool | ThinkLevel string

datatype RequestBody =
    ChatRequest string "ChatMessage list" "ThinkOption option"
  | GenerateRequest string string "string list" "ThinkOption option"

record BuildResult =
  body :: RequestBody
  images :: "string list option"

datatype BuildError =
    InvalidChatObject
  | NoModelSelected
  | InvalidUserMessageId
  | InvalidImageAttachmentContent
  | UserMessageNotFound

text \<open>Truthiness of a string that may be null or undefined.\<close>

fun truthy :: "string option \<Rightarrow> bool" where
  "truthy None = False"
| "truthy (Some s) = (s \<noteq> [])"

definition effectiveMaxMessages :: "Settings \<Rightarrow> int" where
  "effectiveMaxMessages settings = (if maxMessages settings = 0 then 20 else maxMessages settings)"

definition reservedSlots :: "string option \<Rightarrow> string option \<Rightarrow> int" where
  "reservedSlots systemPromptContent memoryContent =
     (if truthy systemPromptContent \<or> truthy memoryContent then 1 else 0) + 1"

definition availableSlots :: "Settings \<Rightarrow> string option \<Rightarrow> string option \<Rightarrow> int" where
  "availableSlots settings systemPromptContent memoryContent =
     max 0 (effectiveMaxMessages settings - reservedSlots systemPromptContent memoryContent)"

definition systemEntries :: "string option \<Rightarrow> string option \<Rightarrow> ChatMessage list" where
  "systemEntries systemPromptContent memoryContent =
     (let systemContent = join newline (filterBoolean [systemPromptContent, memoryContent])
      in if systemContent \<noteq> [] then [\<lparr>role = System, content = systemContent\<rparr>] else [])"

text \<open>
  The history window: the messages other than the new user message and the system
  messages, cut by \<open>.slice(-availableSlots)\<close>.
\<close>

definition selectedHistory :: "Chat \<Rightarrow> string \<Rightarrow> int \<Rightarrow> Message list" where
  "selectedHistory chat userMessageId slots =
     slice (- slots)
       (filter (\<lambda>msg. msg_id msg \<noteq> userMessageId \<and> msg_role msg \<noteq> System) (messages chat))"

definition historyEntry :: "Message \<Rightarrow> ChatMessage" where
  "historyEntry msg = \<lparr>role = msg_role msg, content = stripInternalContextBlocks (msg_content msg)\<rparr>"

text \<open>
  The entries of the multi-entry format: \<open>messages\<close> after the three pushes, then
  \<open>normalized = mergeConsecutiveRoles(messages)\<close>.
\<close>

definition promptEntries ::
  "Chat \<Rightarrow> string \<Rightarrow> string \<Rightarrow> string option \<Rightarrow> Settings \<Rightarrow> ChatMessage list" where
  "promptEntries chat userMessageId finalContent memoryContent settings =
     systemEntries (systemPrompt chat) memoryContent @
     map historyEntry
       (selectedHistory chat userMessageId
          (availableSlots settings (systemPrompt chat) memoryContent)) @
     [\<lparr>role = User, content = finalContent\<rparr>]"

definition chatRequest ::
  "Chat \<Rightarrow> string \<Rightarrow> string \<Rightarrow> string \<Rightarrow> string option \<Rightarrow> Settings \<Rightarrow> ThinkOption option \<Rightarrow>
   BuildError + BuildResult" where
  "chatRequest chat model userMessageId finalContent memoryContent settings think =
     (if \<not> list_ex (\<lambda>msg. msg_id msg = userMessageId) (messages chat)
      then Inl UserMessageNotFound
      else Inr \<lparr>body = ChatRequest model
                  (mergeConsecutiveRoles
                     (promptEntries chat userMessageId finalContent memoryContent settings))
                  think,
                images = None\<rparr>)"

definition imageRequest ::
  "Chat \<Rightarrow> string \<Rightarrow> string \<Rightarrow> Attachment \<Rightarrow> string option \<Rightarrow> ThinkOption option \<Rightarrow>
   BuildError + BuildResult" where
  "imageRequest chat model finalContent att memoryContent think =
     (if att_content att = [] then Inl InvalidImageAttachmentContent
      else Inr \<lparr>body = GenerateRequest model
                  (join newline
                     (filterBoolean [systemPrompt chat, memoryContent, Some finalContent]))
                  [att_content att] think,
                images = Some [att_content att]\<rparr>)"

definition buildOllamaRequestBody ::
  "Chat option \<Rightarrow> string \<Rightarrow> string \<Rightarrow> string \<Rightarrow> AttachmentArg \<Rightarrow> string option \<Rightarrow> Settings \<Rightarrow>
   ThinkOption option \<Rightarrow> BuildError + BuildResult" where
  "buildOllamaRequestBody chatArg model userMessageId finalContent attachmentArg memoryContent
     settings think =
     (case chatArg of
        None \<Rightarrow> Inl InvalidChatObject
      | Some chat \<Rightarrow>
          if model = [] then Inl NoModelSelected
          else if userMessageId = [] then Inl InvalidUserMessageId
          else
            (case attachmentArg of
               Given att \<Rightarrow>
                 if att_type att = IMAGE
                 then imageRequest chat model finalContent att memoryContent think
                 else chatRequest chat model userMessageId finalContent memoryContent settings think
             | _ \<Rightarrow>
                 chatRequest chat model userMessageId finalContent memoryContent settings think))"



section \<open>stores/chat.ts: the chat store\<close>

subsection \<open>State\<close>

datatype SendError =
    NoActiveChat
  | NoModelsAvailable
  | ContentOrAttachmentRequired
  | RetrievalFailed
  | FailedToAddUserMessage
  | BuildFailed BuildError
  | TransportError

text \<open>
  The calls that leave the store: the three throttled persistence functions that a turn
  uses, and the streaming request to the inference transport. The store keeps them in
  the order in which they are issued.
\<close>

datatype Effect =
    SaveMessage string Message
  | ReplaceChatMessages string "Message list"
  | SaveChatMeta string "string option" "int option"
  | InferenceRequest RequestBody

text \<open>
  The state of the store that a turn reads and writes. \<open>models\<close> keeps the names of the
  available models; \<open>memoryContent\<close> is \<open>this.memory.getMemoryContent\<close>;
  \<open>abortController\<close> is \<open>None\<close> for null and \<open>Some aborted\<close> for a controller; \<open>error\<close>
  holds the error that \<open>handleError\<close> renders as text.
\<close>

record Store =
  settings :: Settings
  memoryContent :: "string option"
  models :: "string list"
  chats :: "Chat list"
  activeChatId :: string
  activeChat :: "Chat option"
  isSending :: bool
  abortController :: "bool option"
  error :: "SendError option"
  effects :: "Effect list"

text \<open>The getter \<open>selectedModel\<close>.\<close>

definition getSelectedModel :: "Store \<Rightarrow> string" where
  "getSelectedModel st =
     (if selectedModel (settings st) \<noteq> [] then selectedModel (settings st)
      else if systemModel (settings st) \<noteq> [] then systemModel (settings st)
      else (case models st of [] \<Rightarrow> [] | name # rest \<Rightarrow> name))"

text \<open>
  \<open>xs.find(p)\<close> returns the first element that satisfies \<open>p\<close>, and the code then assigns
  to its fields: \<open>updateFirst p f xs\<close> is \<open>xs\<close> after that assignment.
\<close>

fun updateFirst :: "('a \<Rightarrow> bool) \<Rightarrow> ('a \<Rightarrow> 'a) \<Rightarrow> 'a list \<Rightarrow> 'a list" where
  "updateFirst p f [] = []"
| "updateFirst p f (x # xs) = (if p x then f x # xs else x # updateFirst p f xs)"

text \<open>
  \<open>this.chats.find(c => c.id === chatId)\<close>, and \<open>findById(this.chats, chatId)\<close> of
  \<open>utils/helpers.ts\<close>, taken to be the same lookup. Where \<open>sendMessage\<close> keeps the chat
  object it found at its start, the model looks the chat up again by its id: chat ids are
  taken to be unique, and no other action runs on the store during the turn.
\<close>

definition findChat :: "Store \<Rightarrow> string \<Rightarrow> Chat option" where
  "findChat st chatId = find (\<lambda>c. chat_id c = chatId) (chats st)"

definition syncActiveChat :: "Store \<Rightarrow> Store" where
  "syncActiveChat st = st\<lparr>activeChat := findChat st (activeChatId st)\<rparr>"

text \<open>\<open>this.chats.sort((a, b) => b.timestamp - a.timestamp)\<close>: a stable sort, newest first.\<close>

definition sortChats :: "Store \<Rightarrow> Store" where
  "sortChats st = st\<lparr>chats := sort_key (\<lambda>c. - chat_timestamp c) (chats st)\<rparr>"

subsection \<open>Persistence actions\<close>

definition persistMessage :: "Store \<Rightarrow> string \<Rightarrow> Message \<Rightarrow> Store" where
  "persistMessage st chatId message = st\<lparr>effects := effects st @ [SaveMessage chatId message]\<rparr>"

definition persistChatMessages :: "Store \<Rightarrow> string \<Rightarrow> Store" where
  "persistChatMessages st chatId =
     (case findChat st chatId of
        None \<Rightarrow> st
      | Some chat \<Rightarrow> st\<lparr>effects := effects st @ [ReplaceChatMessages chatId (messages chat)]\<rparr>)"

definition persistChatMeta :: "Store \<Rightarrow> string \<Rightarrow> string option \<Rightarrow> int option \<Rightarrow> Store" where
  "persistChatMeta st chatId newTitle newTimestamp =
     st\<lparr>effects := effects st @ [SaveChatMeta chatId newTitle newTimestamp]\<rparr>"

definition shouldGenerateTitle :: "Store \<Rightarrow> Chat \<Rightarrow> bool" where
  "shouldGenerateTitle st chat =
     (title chat = [] \<or> title chat = defaultChatTitle (settings st))"

definition renameChat :: "Store \<Rightarrow> string \<Rightarrow> string \<Rightarrow> Store" where
  "renameChat st chatId newTitle =
     (case findChat st chatId of
        None \<Rightarrow> st
      | Some chat \<Rightarrow>
          syncActiveChat
            (persistChatMeta
               (st\<lparr>chats := updateFirst (\<lambda>c. chat_id c = chatId) (\<lambda>c. c\<lparr>title := newTitle\<rparr>)
                                (chats st)\<rparr>)
               chatId (Some newTitle) None))"

subsection \<open>addMessage and updateMessage\<close>

text \<open>
  \<open>addMessage st chatId message newId now\<close>: \<open>newId\<close> is the value that
  \<open>crypto.randomUUID()\<close> returns in this call and \<open>now\<close> the value of \<open>Date.now()\<close>.
  The result is the new store and the returned id, or null.
\<close>

definition addMessage :: "Store \<Rightarrow> string \<Rightarrow> Message \<Rightarrow> string \<Rightarrow> int \<Rightarrow> Store \<times> string option" where
  "addMessage st chatId message newId now =
     (case findChat st chatId of
        None \<Rightarrow> (st, None)
      | Some chat \<Rightarrow>
          if msg_role message \<noteq> User \<and> msg_role message \<noteq> Assistant then (st, None)
          else
            (let newMessage = message\<lparr>msg_id := newId\<rparr>;
                 st1 = st\<lparr>chats :=
                          updateFirst (\<lambda>c. chat_id c = chatId)
                            (\<lambda>c. c\<lparr>messages := messages c @ [newMessage], chat_timestamp := now\<rparr>)
                            (chats st)\<rparr>
             in (syncActiveChat (sortChats st1), Some newId)))"

text \<open>
  The metrics of a turn, as the object literal that the code builds four times (on a
  reasoning-channel fragment, on a content fragment, in \<open>cleanup\<close> and at the end of the
  stream) and passes to \<open>updateMessage\<close> as \<open>extra\<close>. Times are in milliseconds;
  \<open>speedCps\<close> is the result of a division.
\<close>

record Metrics =
  m_firstTokenMs :: "int option"
  m_responseMs :: int
  m_outputChars :: nat
  m_speedCps :: "JsNumber option"

text \<open>Truthiness of a number that may be null: null and 0 are falsy.\<close>

fun truthyNum :: "int option \<Rightarrow> bool" where
  "truthyNum None = False"
| "truthyNum (Some n) = (n \<noteq> 0)"

text \<open>The value of a number that may be null in a subtraction: null counts as 0.\<close>

fun numOf :: "int option \<Rightarrow> int" where
  "numOf None = 0"
| "numOf (Some n) = n"

text \<open>
  The divisor of \<open>speedCps\<close>, in seconds:
  \<open>Math.max(0.001, (now - firstTokenTime) / 1000)\<close>.
\<close>

definition speedDivisor :: "int option \<Rightarrow> int \<Rightarrow> rat" where
  "speedDivisor firstTokenTime now = max (1 / 1000) (of_int (now - numOf firstTokenTime) / 1000)"

definition computeMetrics :: "int \<Rightarrow> int option \<Rightarrow> int \<Rightarrow> string \<Rightarrow> Metrics" where
  "computeMetrics requestStartTime firstTokenTime now assistantContent =
     (let outputChars = length assistantContent;
          responseMs = now - requestStartTime;
          speedCps =
            (if truthyNum firstTokenTime
             then Some (jsDivide (of_nat outputChars) (speedDivisor firstTokenTime now))
             else None)
      in \<lparr>m_firstTokenMs =
            (if truthyNum firstTokenTime then Some (numOf firstTokenTime - requestStartTime)
             else None),
          m_responseMs = responseMs,
          m_outputChars = outputChars,
          m_speedCps = speedCps\<rparr>)"

definition applyUpdate ::
  "string \<Rightarrow> bool option \<Rightarrow> int option \<Rightarrow> bool option \<Rightarrow> Metrics option \<Rightarrow> Message \<Rightarrow> Message" where
  "applyUpdate newContent loading newThinkTime thinking extra message =
     (let m1 = message\<lparr>msg_content := newContent\<rparr>;
          m2 = (case loading of None \<Rightarrow> m1 | Some b \<Rightarrow> m1\<lparr>isLoading := Some b\<rparr>);
          m3 = (case newThinkTime of None \<Rightarrow> m2 | Some t \<Rightarrow> m2\<lparr>thinkTime := Some t\<rparr>);
          m4 = (case thinking of None \<Rightarrow> m3 | Some b \<Rightarrow> m3\<lparr>isThinking := Some b\<rparr>)
      in case extra of
           None \<Rightarrow> m4
         | Some x \<Rightarrow>
             (let m5 = (case m_firstTokenMs x of None \<Rightarrow> m4 | Some v \<Rightarrow> m4\<lparr>firstTokenMs := Some v\<rparr>);
                  m6 = m5\<lparr>responseMs := Some (m_responseMs x), outputChars := Some (m_outputChars x)\<rparr>
              in case m_speedCps x of None \<Rightarrow> m6 | Some v \<Rightarrow> m6\<lparr>speedCps := Some v\<rparr>))"

definition updateMessage ::
  "Store \<Rightarrow> string \<Rightarrow> string option \<Rightarrow> string \<Rightarrow> bool option \<Rightarrow> int option \<Rightarrow> bool option \<Rightarrow>
   Metrics option \<Rightarrow> Store" where
  "updateMessage st chatId messageId newContent loading newThinkTime thinking extra =
     (case findChat st chatId of
        None \<Rightarrow> st
      | Some chat \<Rightarrow>
          (case messageId of
             None \<Rightarrow> st
           | Some mid \<Rightarrow>
               (case find (\<lambda>m. msg_id m = mid) (messages chat) of
                  None \<Rightarrow> st
                | Some message \<Rightarrow>
                    (let message' = applyUpdate newContent loading newThinkTime thinking extra message;
                         st1 = st\<lparr>chats :=
                                  updateFirst (\<lambda>c. chat_id c = chatId)
                                    (\<lambda>c. c\<lparr>messages :=
                                            updateFirst (\<lambda>m. msg_id m = mid) (\<lambda>m. message')
                                              (messages c)\<rparr>)
                                    (chats st)\<rparr>
                     in syncActiveChat (persistMessage st1 chatId message')))))"

subsection \<open>The stream interpreter inside sendMessage\<close>

text \<open>
  One parsed line of the response stream, with the time at which its callback runs:
  \<open>data.response\<close>, \<open>data.message?.thinking\<close> and \<open>data.message?.content\<close>. Every
  \<open>Date.now()\<close> inside one callback reads that one time.
\<close>

record StreamData =
  d_time :: int
  d_response :: "string option"
  d_thinking :: "string option"
  d_content :: "string option"

text \<open>
  What happens while the stream is open: a line arrives, or the 100 ms interval set by
  \<open>startThinkTimeUpdates\<close> fires.
\<close>

datatype StreamEvent = Data StreamData | Tick int

datatype TimerHandle = Running | Cleared

text \<open>The variables that the callbacks of one turn close over.\<close>

record TurnState =
  thinkStartTime :: "int option"
  isInThinkBlock :: bool
  thinkTagBuffer :: string
  assistantMessageId :: "string option"
  assistantContent :: string
  thinkTimeInterval :: "TimerHandle option"
  firstTokenTime :: "int option"
  usesThinkingField :: bool

definition initialTurnState :: TurnState where
  "initialTurnState =
     \<lparr>thinkStartTime = None, isInThinkBlock = False, thinkTagBuffer = [],
      assistantMessageId = None, assistantContent = [], thinkTimeInterval = None,
      firstTokenTime = None, usesThinkingField = False\<rparr>"

text \<open>
  What the callbacks read from the enclosing call: the chat, whether the request goes to
  the image endpoint (\<open>hasAttachment && attachmentContent?.type === AttachmentType.IMAGE\<close>),
  \<open>requestStartTime\<close>, and the id that \<open>crypto.randomUUID()\<close> gives the assistant
  message.
\<close>

record TurnConfig =
  cfg_chatId :: string
  cfg_image :: bool
  cfg_requestStartTime :: int
  cfg_assistantUuid :: string

definition THINK_OPEN_TAGS :: "string list" where
  "THINK_OPEN_TAGS = [''<think>'', ''<analysis>'']"

definition THINK_CLOSE_TAGS :: "string list" where
  "THINK_CLOSE_TAGS = [''</think>'', ''</analysis>'']"

definition clearInterval :: "TimerHandle option \<Rightarrow> TimerHandle option" where
  "clearInterval h = (case h of None \<Rightarrow> None | Some x \<Rightarrow> Some Cleared)"

definition startThinkTimeUpdates :: "TurnState \<Rightarrow> TurnState" where
  "startThinkTimeUpdates ts = ts\<lparr>thinkTimeInterval := Some Running\<rparr>"

definition updateThinkStateFromChunk :: "int \<Rightarrow> string \<Rightarrow> TurnState \<Rightarrow> TurnState" where
  "updateThinkStateFromChunk now chunk ts =
     (let ts1 = ts\<lparr>thinkTagBuffer := slice (- 64) (thinkTagBuffer ts @ chunk)\<rparr>;
          combined = thinkTagBuffer ts1;
          ts2 = (if \<not> isInThinkBlock ts1 \<and> list_ex (includesStr combined) THINK_OPEN_TAGS
                 then startThinkTimeUpdates
                        (ts1\<lparr>thinkStartTime := Some now, isInThinkBlock := True\<rparr>)
                 else ts1)
      in if isInThinkBlock ts2 \<and> list_ex (includesStr combined) THINK_CLOSE_TAGS
         then ts2\<lparr>isInThinkBlock := False, thinkTimeInterval := None\<rparr>
         else ts2)"

text \<open>The callback of the interval.\<close>

definition onTick :: "TurnConfig \<Rightarrow> int \<Rightarrow> Store \<times> TurnState \<Rightarrow> Store \<times> TurnState" where
  "onTick cfg now sts =
     (case sts of (st, ts) \<Rightarrow>
        if thinkTimeInterval ts = Some Running \<and> isInThinkBlock ts \<and> truthyNum (thinkStartTime ts)
           \<and> truthy (assistantMessageId ts)
        then (updateMessage st (cfg_chatId cfg) (assistantMessageId ts) (assistantContent ts)
                (Some True) (Some (now - numOf (thinkStartTime ts))) (Some True) None, ts)
        else (st, ts))"

text \<open>
  \<open>assistantMessageId ??= await this.addMessage(chatId, {...})\<close>: the assistant message
  is created on the first fragment that gets here.
\<close>

definition ensureAssistantMessage ::
  "TurnConfig \<Rightarrow> int \<Rightarrow> int option \<Rightarrow> bool \<Rightarrow> Store \<times> TurnState \<Rightarrow> Store \<times> TurnState" where
  "ensureAssistantMessage cfg now newThinkTime thinking sts =
     (case sts of (st, ts) \<Rightarrow>
        (case assistantMessageId ts of
           Some mid \<Rightarrow> (st, ts)
         | None \<Rightarrow>
             (case addMessage st (cfg_chatId cfg)
                     \<lparr>msg_id = [], msg_content = [], msg_role = Assistant, msg_timestamp = now,
                      attachmentMeta = None, attachmentContent = None, isLoading = Some True,
                      thinkTime = newThinkTime, isThinking = Some thinking,
                      firstTokenMs =
                        (if truthyNum (firstTokenTime ts)
                         then Some (numOf (firstTokenTime ts) - cfg_requestStartTime cfg)
                         else None),
                      responseMs = None, outputChars = None, speedCps = None\<rparr>
                     (cfg_assistantUuid cfg) now of
                (st', newId) \<Rightarrow> (st', ts\<lparr>assistantMessageId := newId\<rparr>))))"

definition strOf :: "string option \<Rightarrow> string" where
  "strOf x = (case x of None \<Rightarrow> [] | Some s \<Rightarrow> s)"

definition orNow :: "int option \<Rightarrow> int \<Rightarrow> int option" where
  "orNow t now = (case t of None \<Rightarrow> Some now | Some x \<Rightarrow> Some x)"

text \<open>The branch for a fragment with a \<open>thinking\<close> field.\<close>

definition onThinkingChunk ::
  "TurnConfig \<Rightarrow> int \<Rightarrow> string \<Rightarrow> Store \<times> TurnState \<Rightarrow> Store \<times> TurnState" where
  "onThinkingChunk cfg now thinkingChunk sts =
     (case sts of (st, ts) \<Rightarrow>
        (let ts1 = ts\<lparr>usesThinkingField := True, firstTokenTime := orNow (firstTokenTime ts) now\<rparr>;
             ts2 = (if \<not> isInThinkBlock ts1
                    then startThinkTimeUpdates
                           (ts1\<lparr>assistantContent := assistantContent ts1 @ ''<think>'',
                                thinkStartTime := Some now, isInThinkBlock := True\<rparr>)
                    else ts1)
         in case ensureAssistantMessage cfg now (Some (now - numOf (thinkStartTime ts2))) True
                   (st, ts2) of
              (st3, ts3) \<Rightarrow>
                (let ts4 = ts3\<lparr>assistantContent := assistantContent ts3 @ thinkingChunk\<rparr>
                 in (updateMessage st3 (cfg_chatId cfg) (assistantMessageId ts4)
                       (assistantContent ts4) (Some True)
                       (if truthyNum (thinkStartTime ts4)
                        then Some (now - numOf (thinkStartTime ts4)) else None)
                       (Some True)
                       (Some (computeMetrics (cfg_requestStartTime cfg) (firstTokenTime ts4) now
                                (assistantContent ts4))),
                     ts4))))"

text \<open>The branch for regular content.\<close>

definition onContentChunk ::
  "TurnConfig \<Rightarrow> int \<Rightarrow> string \<Rightarrow> Store \<times> TurnState \<Rightarrow> Store \<times> TurnState" where
  "onContentChunk cfg now chunkContent sts =
     (case sts of (st, ts) \<Rightarrow>
        (let ts1 = ts\<lparr>firstTokenTime := orNow (firstTokenTime ts) now\<rparr>;
             ts2 = (if usesThinkingField ts1 \<and> isInThinkBlock ts1
                    then ts1\<lparr>assistantContent := assistantContent ts1 @ ''</think>'',
                             isInThinkBlock := False, thinkTimeInterval := None\<rparr>
                    else ts1);
             ts3 = (if \<not> usesThinkingField ts2 then updateThinkStateFromChunk now chunkContent ts2
                    else ts2)
         in case ensureAssistantMessage cfg now
                   (if truthyNum (thinkStartTime ts3) \<and> isInThinkBlock ts3
                    then Some (now - numOf (thinkStartTime ts3)) else None)
                   (isInThinkBlock ts3) (st, ts3) of
              (st4, ts4) \<Rightarrow>
                (let ts5 = ts4\<lparr>assistantContent := assistantContent ts4 @ chunkContent\<rparr>
                 in (updateMessage st4 (cfg_chatId cfg) (assistantMessageId ts5)
                       (assistantContent ts5) (Some True)
                       (if thinkTimeInterval ts5 \<noteq> None \<and> isInThinkBlock ts5
                           \<and> truthyNum (thinkStartTime ts5)
                        then Some (now - numOf (thinkStartTime ts5)) else None)
                       (Some (isInThinkBlock ts5))
                       (Some (computeMetrics (cfg_requestStartTime cfg) (firstTokenTime ts5) now
                                (assistantContent ts5))),
                     ts5))))"

text \<open>The callback passed to \<open>processStream\<close>.\<close>

definition onData :: "TurnConfig \<Rightarrow> Store \<times> TurnState \<Rightarrow> StreamData \<Rightarrow> Store \<times> TurnState" where
  "onData cfg sts d =
     (let thinkingChunk = d_thinking d;
          chunkContent = (if cfg_image cfg then d_response d else d_content d)
      in if truthy thinkingChunk then onThinkingChunk cfg (d_time d) (strOf thinkingChunk) sts
         else if \<not> truthy chunkContent then sts
         else onContentChunk cfg (d_time d) (strOf chunkContent) sts)"

fun onEvent :: "TurnConfig \<Rightarrow> Store \<times> TurnState \<Rightarrow> StreamEvent \<Rightarrow> Store \<times> TurnState" where
  "onEvent cfg sts (Data d) = onData cfg sts d"
| "onEvent cfg sts (Tick now) = onTick cfg now sts"

text \<open>
  Modelled from the spec: \<open>processStream\<close> of \<open>utils/helpers.ts\<close>, which is not among
  the sources. The specification has the response as an ordered sequence of fragments
  until the stream ends, each fragment processed to full completion before the next is
  read. The interval callback runs between two fragments.
\<close>

definition runStream :: "TurnConfig \<Rightarrow> Store \<times> TurnState \<Rightarrow> StreamEvent list \<Rightarrow> Store \<times> TurnState" where
  "runStream cfg sts events = foldl (onEvent cfg) sts events"

text \<open>The listener on the abort signal.\<close>

definition cleanup :: "TurnConfig \<Rightarrow> int \<Rightarrow> Store \<times> TurnState \<Rightarrow> Store \<times> TurnState" where
  "cleanup cfg now sts =
     (case sts of (st, ts) \<Rightarrow>
        (let ts1 = ts\<lparr>thinkTimeInterval := clearInterval (thinkTimeInterval ts)\<rparr>
         in if truthy (assistantMessageId ts1) \<and> isInThinkBlock ts1
            then (updateMessage st (cfg_chatId cfg) (assistantMessageId ts1) (assistantContent ts1)
                    (Some False)
                    (if truthyNum (thinkStartTime ts1)
                     then Some (now - numOf (thinkStartTime ts1)) else None)
                    (Some False)
                    (Some (computeMetrics (cfg_requestStartTime cfg) (firstTokenTime ts1) now
                             (assistantContent ts1))),
                  ts1)
            else (st, ts1)))"

text \<open>
  \<open>stopGeneration\<close> of the input component, the handler of the stop button: it aborts
  the controller, which runs \<open>cleanup\<close>, and then marks the last message of the active
  chat as not loading.
\<close>

definition stopGeneration :: "TurnConfig \<Rightarrow> int \<Rightarrow> Store \<times> TurnState \<Rightarrow> Store \<times> TurnState" where
  "stopGeneration cfg now sts =
     (case sts of (st, ts) \<Rightarrow>
        (case abortController st of
           None \<Rightarrow> (st, ts)
         | Some aborted \<Rightarrow>
             (case cleanup cfg now (st\<lparr>abortController := Some True\<rparr>, ts) of
                (st1, ts1) \<Rightarrow>
                  (let st2 = st1\<lparr>isSending := False\<rparr>
                   in case activeChat st2 of
                        None \<Rightarrow> (st2, ts1)
                      | Some chat \<Rightarrow>
                          if messages chat \<noteq> [] \<and> isLoading (last (messages chat)) = Some True
                          then (updateMessage st2 (activeChatId st2)
                                  (Some (msg_id (last (messages chat))))
                                  (msg_content (last (messages chat))) (Some False)
                                  (thinkTime (last (messages chat))) (Some False) None,
                                ts1)
                          else (st2, ts1)))))"

text \<open>The end of \<open>sendMessage\<close> after the stream has completed.\<close>

definition finishTurn :: "TurnConfig \<Rightarrow> int \<Rightarrow> string \<Rightarrow> Store \<times> TurnState \<Rightarrow> Store" where
  "finishTurn cfg now generatedTitle sts =
     (case sts of (st, ts) \<Rightarrow>
        (let st1 =
               (if truthy (assistantMessageId ts)
                then
                  (let finalThinkTime =
                         (if isInThinkBlock ts \<and> truthyNum (thinkStartTime ts)
                          then Some (now - numOf (thinkStartTime ts))
                          else (case findChat st (cfg_chatId cfg) of
                                  None \<Rightarrow> None
                                | Some chat \<Rightarrow>
                                    (case find (\<lambda>m. Some (msg_id m) = assistantMessageId ts)
                                            (messages chat) of
                                       None \<Rightarrow> None
                                     | Some message \<Rightarrow> thinkTime message)))
                   in syncActiveChat
                        (persistChatMessages
                           (updateMessage st (cfg_chatId cfg) (assistantMessageId ts)
                              (assistantContent ts) (Some False) finalThinkTime (Some False)
                              (Some (computeMetrics (cfg_requestStartTime cfg) (firstTokenTime ts)
                                       now (assistantContent ts))))
                           (cfg_chatId cfg)))
                else st);
             st2 =
               (case findChat st1 (cfg_chatId cfg) of
                  None \<Rightarrow> st1
                | Some chat \<Rightarrow>
                    if shouldGenerateTitle st1 chat
                    then renameChat st1 (cfg_chatId cfg) generatedTitle
                    else st1)
         in syncActiveChat (sortChats st2)))"

subsection \<open>sendMessage\<close>

text \<open>
  Modelled from the spec: how \<open>fetch\<close> and \<open>processStream\<close> end. The stream completes;
  or the user stops it, which is a normal terminal path and not an error (the promise
  rejects with an \<open>AbortError\<close>, which the \<open>catch\<close> block swallows); or the transport
  fails, which is surfaced as a failure of the turn (an error that reaches the \<open>catch\<close>
  block). The argument is the time at which the end is handled.
\<close>

datatype StreamEnd = Completed int | Stopped int | Failed int

text \<open>
  What one call of \<open>sendMessage\<close> takes from outside the store: the time at which the
  user message is added and the id it gets; the context blocks built from the attachment
  text and from the results of the link, search and retrieval pipelines, for display and
  for the model (\<open>None\<close> when the retrieval call, the one pipeline that is not wrapped in
  \<open>try\<close>, throws); the \<open>think\<close> option derived from the model capabilities; the time
  of the request and the id of the assistant message; the events of the response stream
  and its end; the title that \<open>generateChatTitle\<close> arrives at.
\<close>

record TurnInput =
  in_userTime :: int
  in_userUuid :: string
  in_context :: "(string \<times> string) option"
  in_think :: "ThinkOption option"
  in_requestStartTime :: int
  in_assistantUuid :: string
  in_events :: "StreamEvent list"
  in_end :: StreamEnd
  in_generatedTitle :: string

text \<open>
  The \<open>catch\<close> and \<open>finally\<close> blocks: an error other than an abort is recorded and
  thrown again; in every case \<open>isSending\<close> and \<open>abortController\<close> are reset.
\<close>

definition failWith :: "SendError \<Rightarrow> Store \<Rightarrow> Store \<times> (SendError + unit)" where
  "failWith e st = (st\<lparr>error := Some e, isSending := False, abortController := None\<rparr>, Inl e)"

definition finish :: "Store \<Rightarrow> Store \<times> (SendError + unit)" where
  "finish st = (st\<lparr>isSending := False, abortController := None\<rparr>, Inr ())"

text \<open>From the request on: the stream, and the three ways out of it.\<close>

definition streamTurn :: "TurnInput \<Rightarrow> TurnConfig \<Rightarrow> Store \<Rightarrow> Store \<times> (SendError + unit)" where
  "streamTurn inp cfg st =
     (let sts = runStream cfg (st, initialTurnState) (in_events inp)
      in case in_end inp of
           Completed now \<Rightarrow> finish (finishTurn cfg now (in_generatedTitle inp) sts)
         | Stopped now \<Rightarrow> finish (fst (stopGeneration cfg now sts))
         | Failed now \<Rightarrow> failWith TransportError (fst sts))"

definition isImage :: "AttachmentArg \<Rightarrow> bool" where
  "isImage a = (case a of Given att \<Rightarrow> att_type att = IMAGE | _ \<Rightarrow> False)"

definition attachmentContentOf :: "AttachmentArg \<Rightarrow> string option" where
  "attachmentContentOf a =
     (case a of Given att \<Rightarrow> (if att_content att = [] then None else Some (att_content att))
      | _ \<Rightarrow> None)"

definition attachmentMetaOf :: "AttachmentArg \<Rightarrow> AttachmentMeta option" where
  "attachmentMetaOf a =
     (case a of
        Given att \<Rightarrow>
          Some \<lparr>meta_type = att_type att, meta_name = file_name (att_meta att),
                meta_size = file_size (att_meta att),
                meta_lastModified = file_lastModified (att_meta att)\<rparr>
      | _ \<Rightarrow> None)"

definition sendMessage ::
  "TurnInput \<Rightarrow> Store \<Rightarrow> string \<Rightarrow> string \<Rightarrow> AttachmentArg \<Rightarrow> Store \<times> (SendError + unit)" where
  "sendMessage inp st chatId contentArg attachmentArg =
     (case findChat st chatId of
        None \<Rightarrow> failWith NoActiveChat st
      | Some chat0 \<Rightarrow>
          if models st = [] then failWith NoModelsAvailable st
          else if trim contentArg = [] \<and> attachmentArg = NoAttachment
          then failWith ContentOrAttachmentRequired st
          else
            (let st1 = st\<lparr>isSending := True, abortController := Some False\<rparr>;
                 finalContent = trim contentArg
             in case in_context inp of
                  None \<Rightarrow> failWith RetrievalFailed st1
                | Some (contextForUi, contextForModel) \<Rightarrow>
                    (let finalContentForUi = trim (finalContent @ contextForUi);
                         finalContentForModel = trim (finalContent @ contextForModel)
                     in case addMessage st1 chatId
                               \<lparr>msg_id = [], msg_content = finalContentForUi, msg_role = User,
                                msg_timestamp = in_userTime inp,
                                attachmentMeta = attachmentMetaOf attachmentArg,
                                attachmentContent = attachmentContentOf attachmentArg,
                                isLoading = None, thinkTime = None, isThinking = None,
                                firstTokenMs = None, responseMs = None, outputChars = None,
                                speedCps = None\<rparr>
                               (in_userUuid inp) (in_userTime inp) of
                          (st2, userMessageId) \<Rightarrow>
                            if \<not> truthy userMessageId then failWith FailedToAddUserMessage st2
                            else
                              (let st3 = syncActiveChat
                                           (persistChatMeta (persistChatMessages st2 chatId) chatId
                                              None
                                              (case findChat st2 chatId of
                                                 None \<Rightarrow> Some (chat_timestamp chat0)
                                               | Some chat \<Rightarrow> Some (chat_timestamp chat)))
                               in case buildOllamaRequestBody (findChat st3 chatId)
                                         (getSelectedModel st3) (strOf userMessageId)
                                         finalContentForModel attachmentArg (memoryContent st3)
                                         (settings st3) (in_think inp) of
                                    Inl e \<Rightarrow> failWith (BuildFailed e) st3
                                  | Inr req \<Rightarrow>
                                      streamTurn inp
                                        \<lparr>cfg_chatId = chatId, cfg_image = isImage attachmentArg,
                                         cfg_requestStartTime = in_requestStartTime inp,
                                         cfg_assistantUuid = in_assistantUuid inp\<rparr>
                                        (st3\<lparr>effects := effects st3 @ [InferenceRequest (body req)]\<rparr>)))))"


subsection \<open>Views of a turn used in the statements\<close>

text \<open>
  The classification state of the interpreter: whether it is in a reasoning block, the
  rolling tag buffer, the accumulated text, and whether the reasoning channel is in use.
\<close>

definition classification :: "TurnState \<Rightarrow> bool \<times> string \<times> string \<times> bool" where
  "classification ts =
     (isInThinkBlock ts, thinkTagBuffer ts, assistantContent ts, usesThinkingField ts)"

definition hasOpenTag :: "string \<Rightarrow> bool" where
  "hasOpenTag s = list_ex (includesStr s) THINK_OPEN_TAGS"

definition hasCloseTag :: "string \<Rightarrow> bool" where
  "hasCloseTag s = list_ex (includesStr s) THINK_CLOSE_TAGS"

text \<open>
  A line that carries answer text: in \<open>data.response\<close> on the image endpoint, in
  \<open>data.message.content\<close> otherwise. A line that carries reasoning text in
  \<open>data.message.thinking\<close>.
\<close>

definition contentData :: "bool \<Rightarrow> int \<Rightarrow> string \<Rightarrow> StreamEvent" where
  "contentData img t c =
     Data \<lparr>d_time = t,
           d_response = (if img then Some c else None),
           d_thinking = None,
           d_content = (if img then None else Some c)\<rparr>"

definition thinkingData :: "int \<Rightarrow> string \<Rightarrow> StreamEvent" where
  "thinkingData t c = Data \<lparr>d_time = t, d_response = None, d_thinking = Some c, d_content = None\<rparr>"

text \<open>
  A fragment of a channel-encoded stream, classified by the transport: reasoning or
  answer, its time and its text.
\<close>

datatype ChannelFragment = Reasoning int string | Answer int string

fun channelEvent :: "bool \<Rightarrow> ChannelFragment \<Rightarrow> StreamEvent" where
  "channelEvent img (Reasoning t s) = thinkingData t s"
| "channelEvent img (Answer t s) = contentData img t s"

fun fragmentText :: "ChannelFragment \<Rightarrow> string" where
  "fragmentText (Reasoning t s) = s"
| "fragmentText (Answer t s) = s"

text \<open>
  The tagged shape of a classified stream, as a tag-encoded stream spells it: the open
  marker where reasoning begins, the close marker where answer text follows reasoning.
  The first argument tells whether a reasoning block is open.
\<close>

fun taggedText :: "bool \<Rightarrow> ChannelFragment list \<Rightarrow> string" where
  "taggedText inBlock [] = []"
| "taggedText inBlock (Reasoning t s # fs) =
     (if inBlock then s else ''<think>'' @ s) @ taggedText True fs"
| "taggedText inBlock (Answer t s # fs) =
     (if inBlock then ''</think>'' @ s else s) @ taggedText False fs"

fun eventTime :: "StreamEvent \<Rightarrow> int" where
  "eventTime (Data d) = d_time d"
| "eventTime (Tick t) = t"

text \<open>An event that delivers a fragment: a line with reasoning text or with answer text.\<close>

fun isFragment :: "bool \<Rightarrow> StreamEvent \<Rightarrow> bool" where
  "isFragment img (Data d) =
     (truthy (d_thinking d) \<or> truthy (if img then d_response d else d_content d))"
| "isFragment img (Tick t) = False"


text \<open>What holds of the turn state after answer fragments whose texts concatenate to a
  given text have been fed to a fresh interpreter.\<close>

definition tagInv :: "TurnState \<Rightarrow> string \<Rightarrow> bool" where
  "tagInv ts body0 =
     (assistantContent ts = body0 \<and> thinkTagBuffer ts = slice (- 64) body0 \<and>
      \<not> usesThinkingField ts \<and>
      (length body0 \<le> 64 \<longrightarrow> isInThinkBlock ts = (hasOpenTag body0 \<and> \<not> hasCloseTag body0)))"


section \<open>The throttled persistence wrapper\<close>

text \<open>
  The four wrappers and their windows in milliseconds, from the head of the store:
  \<open>createThrottledFunction(saveChat, 2000)\<close> and 800 for the other three.
\<close>

datatype WriteKind = SaveChatKind | SaveMessageKind | SaveChatMetaKind | ReplaceChatMessagesKind

fun throttleWindow :: "WriteKind \<Rightarrow> int" where
  "throttleWindow SaveChatKind = 2000"
| "throttleWindow SaveMessageKind = 800"
| "throttleWindow SaveChatMetaKind = 800"
| "throttleWindow ReplaceChatMessagesKind = 800"

text \<open>
  Modelled from the spec: \<open>createThrottledFunction\<close> of \<open>utils/helpers.ts\<close>, which is
  not among the sources. The specification says that each write kind is throttled
  independently with trailing-edge coalescing: the submissions within one throttle window
  collapse to a single write of the most recent snapshot, and after the window elapses, or
  after an explicit flush, the backing store holds the last submitted snapshot.
  A wrapper holds the snapshot waiting to be written and the time at which the open
  window ends; \<open>written\<close> lists the writes done to the backing store, oldest first.
\<close>

record 'a Throttled =
  pending :: "'a option"
  windowEnd :: "int option"
  written :: "'a list"

definition idle :: "'a Throttled" where
  "idle = \<lparr>pending = None, windowEnd = None, written = []\<rparr>"

text \<open>Modelled from the spec: the write at the trailing edge of the window, and \<open>flush\<close>.\<close>

definition flush :: "'a Throttled \<Rightarrow> 'a Throttled" where
  "flush th =
     (case pending th of
        None \<Rightarrow> th\<lparr>windowEnd := None\<rparr>
      | Some snapshot \<Rightarrow>
          th\<lparr>pending := None, windowEnd := None, written := written th @ [snapshot]\<rparr>)"

text \<open>Modelled from the spec: time passes; a window that has ended writes what is pending.\<close>

definition elapse :: "int \<Rightarrow> 'a Throttled \<Rightarrow> 'a Throttled" where
  "elapse now th =
     (case windowEnd th of
        None \<Rightarrow> th
      | Some t \<Rightarrow> if t \<le> now then flush th else th)"

text \<open>
  Modelled from the spec: \<open>submit\<close> at time \<open>now\<close>. The snapshot replaces the one that
  is waiting; a window is opened if none is open.
\<close>

definition submit :: "int \<Rightarrow> int \<Rightarrow> 'a \<Rightarrow> 'a Throttled \<Rightarrow> 'a Throttled" where
  "submit window now snapshot th =
     (let th1 = elapse now th
      in th1\<lparr>pending := Some snapshot,
             windowEnd := (case windowEnd th1 of None \<Rightarrow> Some (now + window) | Some t \<Rightarrow> Some t)\<rparr>)"

text \<open>
  Modelled from the spec: the coordinator keeps one wrapper per write kind, and a
  submission touches the wrapper of its kind only.
\<close>

definition submitKind ::
  "WriteKind \<Rightarrow> int \<Rightarrow> 'a \<Rightarrow> (WriteKind \<Rightarrow> 'a Throttled) \<Rightarrow> (WriteKind \<Rightarrow> 'a Throttled)" where
  "submitKind kind now snapshot coord =
     coord(kind := submit (throttleWindow kind) now snapshot (coord kind))"

definition elapseAll :: "int \<Rightarrow> (WriteKind \<Rightarrow> 'a Throttled) \<Rightarrow> (WriteKind \<Rightarrow> 'a Throttled)" where
  "elapseAll now coord = (\<lambda>kind. elapse now (coord kind))"

text \<open>A burst of submissions of one kind, each with its time.\<close>

definition submitBurst ::
  "WriteKind \<Rightarrow> (int \<times> 'a) list \<Rightarrow> (WriteKind \<Rightarrow> 'a Throttled) \<Rightarrow> (WriteKind \<Rightarrow> 'a Throttled)" where
  "submitBurst kind burst coord = foldl (\<lambda>c (t, snapshot). submitKind kind t snapshot c) coord burst"


section \<open>Sample data\<close>

text \<open>
  A stored message with no attachment and no stream state, a chat around a message list,
  settings around a value of \<open>maxMessages\<close>, and a user message that is nothing but a
  collapsible internal-context block as \<open>toDetailsBlock\<close> renders it. They are the
  concrete inputs of the evaluations below.
\<close>

definition plainMessage :: "string \<Rightarrow> role \<Rightarrow> string \<Rightarrow> Message" where
  "plainMessage i r c =
     \<lparr>msg_id = i, msg_content = c, msg_role = r, msg_timestamp = 0,
      attachmentMeta = None, attachmentContent = None, isLoading = None, thinkTime = None,
      isThinking = None, firstTokenMs = None, responseMs = None, outputChars = None,
      speedCps = None\<rparr>"

definition sampleChat :: "string option \<Rightarrow> Message list \<Rightarrow> Chat" where
  "sampleChat sp ms =
     \<lparr>chat_id = ''chat-1'', title = ''New chat'', chat_timestamp = 0, systemPrompt = sp,
      messages = ms\<rparr>"

definition sampleSettings :: "int \<Rightarrow> Settings" where
  "sampleSettings n =
     \<lparr>maxMessages = n, selectedModel = ''m'', systemModel = [], defaultChatTitle = ''New chat''\<rparr>"

definition internalContextOnly :: string where
  \<open>internalContextOnly =
     ''<details class="internal-context"><summary>RAG</summary><pre>doc</pre></details>''\<close>


definition sampleStore :: "Chat list \<Rightarrow> Store" where
  "sampleStore cs =
     \<lparr>settings = sampleSettings 20, memoryContent = None, models = [''m''], chats = cs,
      activeChatId = ''chat-1'', activeChat = None, isSending = False, abortController = None,
      error = None, effects = []\<rparr>"

definition sampleInput :: "StreamEvent list \<Rightarrow> StreamEnd \<Rightarrow> TurnInput" where
  "sampleInput evs e =
     \<lparr>in_userTime = 1000, in_userUuid = ''u-1'', in_context = Some ([], []), in_think = None,
      in_requestStartTime = 1010, in_assistantUuid = ''a-1'', in_events = evs, in_end = e,
      in_generatedTitle = ''Greeting''\<rparr>"

definition sampleConfig :: TurnConfig where
  "sampleConfig =
     \<lparr>cfg_chatId = ''chat-1'', cfg_image = False, cfg_requestStartTime = 1010,
      cfg_assistantUuid = ''a-1''\<rparr>"


section \<open>Properties of the string primitives\<close>

lemma trim_Nil [simp]: "trim [] = []"
  by (simp add: trim_def)

lemma trim_nonempty: "trim s \<noteq> [] \<Longrightarrow> s \<noteq> []"
  by auto

lemma join_snoc: "xs \<noteq> [] \<Longrightarrow> join sep (xs @ [x]) = join sep xs @ sep @ x"
  by (induction sep xs rule: join.induct) auto

lemma join_nonempty:
  "xs \<noteq> [] \<Longrightarrow> \<forall>x \<in> set xs. x \<noteq> [] \<Longrightarrow> join sep xs \<noteq> []"
  by (induction sep xs rule: join.induct) auto

lemma includesStr_sublist: "includesStr s t = sublist t s"
  by (induction s) (auto simp: sublist_Cons_right)


section \<open>mergeConsecutiveRoles: role alternation and content preservation\<close>

lemma roleRuns_concat: "concat (roleRuns ms) = ms"
  by (induction ms) (auto split: list.splits)

lemma roleRuns_nonempty: "g \<in> set (roleRuns ms) \<Longrightarrow> g \<noteq> []"
  by (induction ms arbitrary: g) (auto split: list.splits if_splits)

lemma roleRuns_Nil_iff [simp]: "roleRuns ms = [] \<longleftrightarrow> ms = []"
  by (cases ms) (auto split: list.splits)

lemma roleRuns_same_role:
  "g \<in> set (roleRuns ms) \<Longrightarrow> x \<in> set g \<Longrightarrow> role x = role (hd g)"
proof (induction ms arbitrary: g x)
  case Nil
  then show ?case by simp
next
  case (Cons m ms)
  show ?case
  proof (cases "roleRuns ms")
    case Nil
    with Cons.prems show ?thesis by auto
  next
    case (Cons h hs)
    have h_in: "h \<in> set (roleRuns ms)" using Cons by simp
    show ?thesis
    proof (cases "role (hd h) = role m")
      case True
      with Cons Cons.prems Cons.IH [OF h_in] Cons.IH show ?thesis
        by (auto simp: Cons)
    next
      case False
      with Cons Cons.prems Cons.IH show ?thesis by auto
    qed
  qed
qed

lemma roleRuns_snoc:
  "roleRuns (ms @ [x]) =
     (if ms = [] then [[x]]
      else if role (last ms) = role x
        then butlast (roleRuns ms) @ [last (roleRuns ms) @ [x]]
        else roleRuns ms @ [[x]])"
proof (induction ms)
  case Nil
  then show ?case by simp
next
  case (Cons m ms)
  show ?case
  proof (cases "ms = []")
    case True
    then show ?thesis by auto
  next
    case False
    then obtain g gs where g: "roleRuns ms = g # gs"
      by (cases "roleRuns ms") auto
    have gne: "g \<noteq> []" using roleRuns_nonempty [of g ms] g by simp
    show ?thesis
      using Cons.IH False g gne
      by (cases gs) (auto split: list.splits if_splits)
  qed
qed

lemma last_roleRuns_role:
  "ms \<noteq> [] \<Longrightarrow> role (hd (last (roleRuns ms))) = role (last ms)"
proof -
  assume ne: "ms \<noteq> []"
  then have rne: "roleRuns ms \<noteq> []" by simp
  then have in_runs: "last (roleRuns ms) \<in> set (roleRuns ms)" by simp
  have "last ms = last (concat (roleRuns ms))" by (simp add: roleRuns_concat)
  also have "\<dots> = last (last (roleRuns ms))"
    using rne roleRuns_nonempty [OF in_runs]
    by (metis append_butlast_last_id concat.simps(2) concat_append last_appendR append_Nil2 concat.simps(1))
  finally have "last ms \<in> set (last (roleRuns ms))"
    using roleRuns_nonempty [OF in_runs] by simp
  from roleRuns_same_role [OF in_runs this] show ?thesis by simp
qed

lemma joinRun_snoc:
  "g \<noteq> [] \<Longrightarrow> joinRun (g @ [x]) =
     (joinRun g)\<lparr>content := content (joinRun g) @ blankLine @ content x\<rparr>"
  by (simp add: joinRun_def join_snoc)

lemma mergeStep_runs:
  assumes "\<forall>m \<in> set ms. nonBlank m" and "nonBlank x"
  shows "mergeStep (map joinRun (roleRuns ms)) x = map joinRun (roleRuns (ms @ [x]))"
proof (cases "ms = []")
  case True
  then show ?thesis using assms by (simp add: mergeStep_def nonBlank_def joinRun_def)
next
  case False
  then have rne: "roleRuns ms \<noteq> []" by simp
  then have in_runs: "last (roleRuns ms) \<in> set (roleRuns ms)" by simp
  have gne: "last (roleRuns ms) \<noteq> []" by (rule roleRuns_nonempty [OF in_runs])
  have sub: "set (last (roleRuns ms)) \<subseteq> set ms"
    using in_runs roleRuns_concat [of ms] by (metis Sup_upper image_eqI set_concat)
  have "\<forall>c \<in> set (map content (last (roleRuns ms))). c \<noteq> []"
  proof
    fix c assume "c \<in> set (map content (last (roleRuns ms)))"
    then obtain m where m: "m \<in> set (last (roleRuns ms))" "c = content m" by auto
    with sub assms(1) have "trim (content m) \<noteq> []" by (auto simp: nonBlank_def)
    then show "c \<noteq> []" using m(2) trim_nonempty by simp
  qed
  moreover have "map content (last (roleRuns ms)) \<noteq> []" using gne by simp
  ultimately have cne: "content (joinRun (last (roleRuns ms))) \<noteq> []"
    unfolding joinRun_def using join_nonempty by simp
  have xne: "content x \<noteq> []" "trim (content x) \<noteq> []"
    using assms(2) by (auto simp: nonBlank_def)
  have lastmap: "last (map joinRun (roleRuns ms)) = joinRun (last (roleRuns ms))"
    using rne by (simp add: last_map)
  have rl: "role (joinRun (last (roleRuns ms))) = role (last ms)"
    using last_roleRuns_role [OF False] by (simp add: joinRun_def)
  show ?thesis
  proof (cases "role (last ms) = role x")
    case True
    then show ?thesis
      using False rne cne xne lastmap rl gne
      by (simp add: mergeStep_def roleRuns_snoc joinRun_snoc map_butlast)
  next
    case False
    then show ?thesis
      using \<open>ms \<noteq> []\<close> rne xne lastmap rl
      by (simp add: mergeStep_def roleRuns_snoc joinRun_def)
  qed
qed

lemma mergeStep_blank: "\<not> nonBlank x \<Longrightarrow> mergeStep acc x = acc"
  by (simp add: mergeStep_def nonBlank_def)

lemma foldl_mergeStep_runs:
  "\<forall>m \<in> set ms. nonBlank m \<Longrightarrow>
   foldl mergeStep (map joinRun (roleRuns ms)) xs =
   map joinRun (roleRuns (ms @ filter nonBlank xs))"
proof (induction xs arbitrary: ms)
  case Nil
  then show ?case by simp
next
  case (Cons x xs)
  show ?case
  proof (cases "nonBlank x")
    case True
    have "\<forall>m \<in> set (ms @ [x]). nonBlank m" using Cons.prems True by simp
    from Cons.IH [OF this] show ?thesis
      using True mergeStep_runs [OF Cons.prems True] by simp
  next
    case False
    then show ?thesis using Cons.IH [OF Cons.prems] by (simp add: mergeStep_blank)
  qed
qed

lemma mergeConsecutiveRoles_runs:
  "mergeConsecutiveRoles ms = map joinRun (roleRuns (filter nonBlank ms))"
  using foldl_mergeStep_runs [of "[]" ms] by (simp add: mergeConsecutiveRoles_def)

lemma map_role_update_last:
  assumes "acc \<noteq> []"
  shows "map role (butlast acc @ [(last acc)\<lparr>content := c\<rparr>]) = map role acc"
proof -
  have "map role (butlast acc @ [(last acc)\<lparr>content := c\<rparr>]) = map role (butlast acc @ [last acc])"
    by simp
  then show ?thesis using assms by simp
qed

lemma mergeStep_roles:
  assumes "distinct_adj (map role acc)"
  shows "distinct_adj (map role (mergeStep acc x))"
proof (cases "trim (content x) = []")
  case True
  then show ?thesis using assms by (simp add: mergeStep_def)
next
  case nb: False
  show ?thesis
  proof (cases "acc \<noteq> [] \<and> role (last acc) = role x")
    case True
    then have "map role (mergeStep acc x) = map role acc"
      using nb map_role_update_last [of acc] by (simp add: mergeStep_def Let_def)
    then show ?thesis using assms by simp
  next
    case False
    then have "mergeStep acc x = acc @ [\<lparr>role = role x, content = content x\<rparr>]"
      using nb by (auto simp: mergeStep_def Let_def)
    then show ?thesis using assms False
      by (auto simp: distinct_adj_append_iff last_map)
  qed
qed

lemma foldl_mergeStep_roles:
  "distinct_adj (map role acc) \<Longrightarrow> distinct_adj (map role (foldl mergeStep acc xs))"
  by (induction xs arbitrary: acc) (simp_all add: mergeStep_roles)

lemma mergeConsecutiveRoles_alternates:
  "distinct_adj (map role (mergeConsecutiveRoles ms))"
  by (simp add: mergeConsecutiveRoles_def foldl_mergeStep_roles)

lemma mergeConsecutiveRoles_skip_blank:
  assumes "\<not> nonBlank e"
  shows "mergeConsecutiveRoles (xs @ [e] @ ys) = mergeConsecutiveRoles (xs @ ys)"
  using assms by (simp add: mergeConsecutiveRoles_runs)

lemma foldl_mergeStep_length:
  "length (foldl mergeStep acc xs) \<le> length acc + length xs"
proof (induction xs arbitrary: acc)
  case Nil
  then show ?case by simp
next
  case (Cons x xs)
  have "length (mergeStep acc x) \<le> Suc (length acc)"
    by (simp add: mergeStep_def Let_def)
  with Cons.IH [of "mergeStep acc x"] show ?case by simp
qed

lemma mergeConsecutiveRoles_length: "length (mergeConsecutiveRoles ms) \<le> length ms"
  using foldl_mergeStep_length [of "[]" ms] by (simp add: mergeConsecutiveRoles_def)

lemma mergeStep_system_count:
  "length (filter (\<lambda>r. r = System) (map role (mergeStep acc x)))
     \<le> length (filter (\<lambda>r. r = System) (map role acc)) + (if role x = System then 1 else 0)"
proof (cases "trim (content x) \<noteq> [] \<and> acc \<noteq> [] \<and> role (last acc) = role x")
  case True
  then have "map role (mergeStep acc x) = map role acc"
    using map_role_update_last [of acc] by (simp add: mergeStep_def Let_def)
  then show ?thesis by simp
next
  case False
  then show ?thesis by (auto simp: mergeStep_def Let_def)
qed

lemma foldl_mergeStep_system_count:
  "length (filter (\<lambda>r. r = System) (map role (foldl mergeStep acc xs)))
     \<le> length (filter (\<lambda>r. r = System) (map role acc))
       + length (filter (\<lambda>r. r = System) (map role xs))"
proof (induction xs arbitrary: acc)
  case Nil
  then show ?case by simp
next
  case (Cons x xs)
  from Cons.IH [of "mergeStep acc x"] mergeStep_system_count [of acc x]
  show ?case by (simp split: if_splits)
qed

lemma mergeConsecutiveRoles_system_count:
  "length (filter (\<lambda>r. r = System) (map role (mergeConsecutiveRoles ms)))
     \<le> length (filter (\<lambda>r. r = System) (map role ms))"
  using foldl_mergeStep_system_count [of "[]" ms] by (simp add: mergeConsecutiveRoles_def)


section \<open>Bounded context assembly\<close>

lemma slice_negative_length:
  "0 < n \<Longrightarrow> int (length (slice (- n) xs)) \<le> n"
  by (auto simp: slice_def Let_def)

lemma slice_minus_zero: "slice (- 0) xs = xs"
  by (simp add: slice_def)

lemma systemEntries_length:
  "int (length (systemEntries sp mem)) = reservedSlots sp mem - 1"
  by (cases sp; cases mem) (auto simp: systemEntries_def reservedSlots_def Let_def)

lemma systemEntries_roles:
  "length (filter (\<lambda>r. r = System) (map role (systemEntries sp mem))) \<le> 1"
  by (simp add: systemEntries_def Let_def)

lemma selectedHistory_subset:
  "set (selectedHistory chat uid n)
     \<subseteq> {msg \<in> set (messages chat). msg_id msg \<noteq> uid \<and> msg_role msg \<noteq> System}"
proof -
  have "set (slice k xs) \<subseteq> set xs" for k and xs :: "Message list"
    by (auto simp: slice_def Let_def dest: in_set_dropD)
  then show ?thesis unfolding selectedHistory_def by fastforce
qed

lemma historyEntry_no_system:
  "filter (\<lambda>r. r = System) (map role (map historyEntry (selectedHistory chat uid n))) = []"
  using selectedHistory_subset [of chat uid n]
  by (auto simp: filter_empty_conv historyEntry_def)

lemma promptEntries_system_count:
  "length (filter (\<lambda>r. r = System) (map role (promptEntries chat uid fc mem stg))) \<le> 1"
  using systemEntries_roles [of "systemPrompt chat" mem]
        historyEntry_no_system [of chat uid "availableSlots stg (systemPrompt chat) mem"]
  by (simp add: promptEntries_def)

lemma promptEntries_length:
  assumes "0 < availableSlots stg (systemPrompt chat) mem"
  shows "int (length (promptEntries chat uid fc mem stg)) \<le> effectiveMaxMessages stg"
proof -
  let ?a = "availableSlots stg (systemPrompt chat) mem"
  have "int (length (selectedHistory chat uid ?a)) \<le> ?a"
    unfolding selectedHistory_def by (rule slice_negative_length [OF assms])
  moreover have "?a = effectiveMaxMessages stg - reservedSlots (systemPrompt chat) mem"
    using assms by (simp add: availableSlots_def)
  ultimately show ?thesis
    using systemEntries_length [of "systemPrompt chat" mem]
    by (simp add: promptEntries_def)
qed

lemma buildOllamaRequestBody_chat:
  assumes "buildOllamaRequestBody (Some chat) model uid fc att mem stg think = Inr res"
      and "body res = ChatRequest m msgs t"
  shows "msgs = mergeConsecutiveRoles (promptEntries chat uid fc mem stg)"
  using assms
  by (auto simp: buildOllamaRequestBody_def chatRequest_def imageRequest_def
           split: if_splits AttachmentArg.splits)


section \<open>Claims about context assembly\<close>

text \<open>
  C3, amended. For every input list, the output of \<open>mergeConsecutiveRoles\<close> has no two
  adjacent entries of the same role, and it is exactly the input without its blank
  entries (content empty or white space only), cut into maximal runs of equal role, each
  run joined with a blank line between the contents; cutting into runs loses no entry.
  So no content of a non-blank entry is dropped. Blank entries are skipped.
\<close>

theorem mergeConsecutiveRoles_alternates_and_keeps_content:
  "distinct_adj (map role (mergeConsecutiveRoles ms)) \<and>
   mergeConsecutiveRoles ms = map joinRun (roleRuns (filter nonBlank ms)) \<and>
   concat (roleRuns (filter nonBlank ms)) = filter nonBlank ms"
  by (simp add: mergeConsecutiveRoles_alternates roleRuns_concat
        mergeConsecutiveRoles_runs [symmetric])

theorem mergeConsecutiveRoles_alternates_and_keeps_content_witness:
  "mergeConsecutiveRoles
     [\<lparr>role = User, content = ''a''\<rparr>, \<lparr>role = User, content = ''b''\<rparr>,
      \<lparr>role = Assistant, content = ''c''\<rparr>]
   = [\<lparr>role = User, content = ''a'' @ blankLine @ ''b''\<rparr>, \<lparr>role = Assistant, content = ''c''\<rparr>]
   \<and> distinct_adj [User, Assistant]"
  using mergeConsecutiveRoles_alternates_and_keeps_content
          [of "[\<lparr>role = User, content = ''a''\<rparr>, \<lparr>role = User, content = ''b''\<rparr>,
                \<lparr>role = Assistant, content = ''c''\<rparr>]"]
  by (simp add: nonBlank_def trim_def isWhiteSpace_def joinRun_def)

text \<open>
  C3 as stated fails: the assistant entry below has the content \<open>'' ''\<close> (one space). It
  is dropped, its content occurs nowhere in the output, and the two user entries around
  it, which were not adjacent, are merged.
\<close>

theorem mergeConsecutiveRoles_drops_blank_entry:
  "mergeConsecutiveRoles
     [\<lparr>role = User, content = ''a''\<rparr>, \<lparr>role = Assistant, content = '' ''\<rparr>,
      \<lparr>role = User, content = ''b''\<rparr>]
   = [\<lparr>role = User, content = ''a'' @ blankLine @ ''b''\<rparr>]
   \<and> \<not> includesStr (''a'' @ blankLine @ ''b'') '' ''"
  by (simp add: mergeConsecutiveRoles_def mergeStep_def trim_def isWhiteSpace_def)

text \<open>
  C10. Whenever \<open>buildOllamaRequestBody\<close> returns the multi-entry format and an entry
  \<open>msg\<close> of the selected history window has a content that is empty or white space only
  once the internal-context blocks are stripped, the assembled prompt is the prompt
  assembled from the window without \<open>msg\<close>: the entry is neither an entry of its own nor
  merged into a neighbour.
\<close>

theorem buildOllamaRequestBody_omits_blank_history_entry:
  assumes "buildOllamaRequestBody (Some chat) model uid finalContent att mem stg think
             = Inr res"
      and "body res = ChatRequest m msgs t"
      and "selectedHistory chat uid (availableSlots stg (systemPrompt chat) mem)
             = pre @ [msg] @ post"
      and "trim (stripInternalContextBlocks (msg_content msg)) = []"
  shows "msgs = mergeConsecutiveRoles
                  (systemEntries (systemPrompt chat) mem @ map historyEntry (pre @ post) @
                   [\<lparr>role = User, content = finalContent\<rparr>])"
proof -
  have blank: "\<not> nonBlank (historyEntry msg)"
    using assms(4) by (simp add: nonBlank_def historyEntry_def)
  have "msgs = mergeConsecutiveRoles (promptEntries chat uid finalContent mem stg)"
    by (rule buildOllamaRequestBody_chat [OF assms(1,2)])
  also have "promptEntries chat uid finalContent mem stg
               = (systemEntries (systemPrompt chat) mem @ map historyEntry pre) @
                 [historyEntry msg] @
                 (map historyEntry post @ [\<lparr>role = User, content = finalContent\<rparr>])"
    by (simp add: promptEntries_def assms(3))
  also have "mergeConsecutiveRoles \<dots>
               = mergeConsecutiveRoles
                   ((systemEntries (systemPrompt chat) mem @ map historyEntry pre) @
                    (map historyEntry post @ [\<lparr>role = User, content = finalContent\<rparr>]))"
    by (rule mergeConsecutiveRoles_skip_blank [OF blank])
  finally show ?thesis by simp
qed

theorem buildOllamaRequestBody_omits_blank_history_entry_witness:
  "selectedHistory
     (sampleChat None
        [plainMessage ''1'' User ''hi'', plainMessage ''2'' Assistant ''hello'',
         plainMessage ''3'' User internalContextOnly, plainMessage ''4'' Assistant ''ok'',
         plainMessage ''5'' User ''q''])
     ''5'' (availableSlots (sampleSettings 20) None None)
   = [plainMessage ''1'' User ''hi'', plainMessage ''2'' Assistant ''hello''] @
     [plainMessage ''3'' User internalContextOnly] @ [plainMessage ''4'' Assistant ''ok'']
   \<and> trim (stripInternalContextBlocks (msg_content (plainMessage ''3'' User internalContextOnly)))
       = []
   \<and> buildOllamaRequestBody
       (Some (sampleChat None
          [plainMessage ''1'' User ''hi'', plainMessage ''2'' Assistant ''hello'',
           plainMessage ''3'' User internalContextOnly, plainMessage ''4'' Assistant ''ok'',
           plainMessage ''5'' User ''q'']))
       ''m'' ''5'' ''q'' NoAttachment None (sampleSettings 20) None
     = Inr \<lparr>body = ChatRequest ''m''
               [\<lparr>role = User, content = ''hi''\<rparr>,
                \<lparr>role = Assistant, content = ''hello'' @ blankLine @ ''ok''\<rparr>,
                \<lparr>role = User, content = ''q''\<rparr>] None,
             images = None\<rparr>"
proof -
  let ?chat = "sampleChat None
        [plainMessage ''1'' User ''hi'', plainMessage ''2'' Assistant ''hello'',
         plainMessage ''3'' User internalContextOnly, plainMessage ''4'' Assistant ''ok'',
         plainMessage ''5'' User ''q'']"
  let ?res = "\<lparr>body = ChatRequest ''m''
               [\<lparr>role = User, content = ''hi''\<rparr>,
                \<lparr>role = Assistant, content = ''hello'' @ blankLine @ ''ok''\<rparr>,
                \<lparr>role = User, content = ''q''\<rparr>] None,
             images = None\<rparr>"
  have h1: "buildOllamaRequestBody (Some ?chat) ''m'' ''5'' ''q'' NoAttachment None
              (sampleSettings 20) None = Inr ?res"
    by code_simp
  have h2: "body ?res = ChatRequest ''m''
               [\<lparr>role = User, content = ''hi''\<rparr>,
                \<lparr>role = Assistant, content = ''hello'' @ blankLine @ ''ok''\<rparr>,
                \<lparr>role = User, content = ''q''\<rparr>] None"
    by simp
  have h3: "selectedHistory ?chat ''5'' (availableSlots (sampleSettings 20) (systemPrompt ?chat) None)
          = [plainMessage ''1'' User ''hi'', plainMessage ''2'' Assistant ''hello''] @
            [plainMessage ''3'' User internalContextOnly] @ [plainMessage ''4'' Assistant ''ok'']"
    by code_simp
  have h4: "trim (stripInternalContextBlocks
              (msg_content (plainMessage ''3'' User internalContextOnly))) = []"
    by code_simp
  have sp: "systemPrompt ?chat = None" by (simp add: sampleChat_def)
  note buildOllamaRequestBody_omits_blank_history_entry [OF h1 h2 h3 h4]
  then show ?thesis using h1 h3 h4 sp by simp
qed

text \<open>
  C1, amended. Whenever \<open>buildOllamaRequestBody\<close> returns the multi-entry format, the
  prompt has at most one system entry; and when \<open>availableSlots\<close> is positive, that is
  when the effective maximum (\<open>maxMessages\<close>, or 20 when it is 0) exceeds
  \<open>reservedSlots\<close>, the prompt has at most that many entries, the new user entry
  included. Every declared value of \<open>maxMessages\<close> (5, 10, 20, 50, 100) is in that case.
\<close>

theorem buildOllamaRequestBody_bounded:
  assumes "buildOllamaRequestBody (Some chat) model uid finalContent att mem stg think
             = Inr res"
      and "body res = ChatRequest m msgs t"
  shows "length (filter (\<lambda>e. role e = System) msgs) \<le> 1 \<and>
         (0 < availableSlots stg (systemPrompt chat) mem \<longrightarrow>
            int (length msgs) \<le> effectiveMaxMessages stg)"
proof -
  let ?entries = "promptEntries chat uid finalContent mem stg"
  have msgs: "msgs = mergeConsecutiveRoles ?entries"
    by (rule buildOllamaRequestBody_chat [OF assms])
  have "length (filter (\<lambda>e. role e = System) msgs)
          = length (filter (\<lambda>r. r = System) (map role msgs))"
    by (simp add: filter_map comp_def)
  also have "\<dots> \<le> length (filter (\<lambda>r. r = System) (map role ?entries))"
    unfolding msgs by (rule mergeConsecutiveRoles_system_count)
  also have "\<dots> \<le> 1" by (rule promptEntries_system_count)
  finally have one: "length (filter (\<lambda>e. role e = System) msgs) \<le> 1" .
  have "int (length msgs) \<le> effectiveMaxMessages stg"
    if "0 < availableSlots stg (systemPrompt chat) mem"
  proof -
    have "length msgs \<le> length ?entries"
      unfolding msgs by (rule mergeConsecutiveRoles_length)
    with promptEntries_length [OF that, of uid finalContent] show ?thesis by simp
  qed
  with one show ?thesis by simp
qed

theorem buildOllamaRequestBody_bounded_witness:
  "buildOllamaRequestBody
     (Some (sampleChat (Some ''sys'')
        [plainMessage ''1'' User ''a'', plainMessage ''2'' Assistant ''b'',
         plainMessage ''3'' User ''c'', plainMessage ''4'' Assistant ''d'',
         plainMessage ''5'' User ''e'', plainMessage ''6'' Assistant ''f'',
         plainMessage ''7'' User ''g'']))
     ''m'' ''7'' ''g'' NoAttachment None (sampleSettings 5) None
   = Inr \<lparr>body = ChatRequest ''m''
             [\<lparr>role = System, content = ''sys''\<rparr>, \<lparr>role = Assistant, content = ''d''\<rparr>,
              \<lparr>role = User, content = ''e''\<rparr>, \<lparr>role = Assistant, content = ''f''\<rparr>,
              \<lparr>role = User, content = ''g''\<rparr>] None,
           images = None\<rparr>
   \<and> 0 < availableSlots (sampleSettings 5) (Some ''sys'') None
   \<and> int (length
        [\<lparr>role = System, content = ''sys''\<rparr>, \<lparr>role = Assistant, content = ''d''\<rparr>,
         \<lparr>role = User, content = ''e''\<rparr>, \<lparr>role = Assistant, content = ''f''\<rparr>,
         \<lparr>role = User, content = ''g''\<rparr>]) \<le> effectiveMaxMessages (sampleSettings 5)"
proof -
  let ?chat = "sampleChat (Some ''sys'')
        [plainMessage ''1'' User ''a'', plainMessage ''2'' Assistant ''b'',
         plainMessage ''3'' User ''c'', plainMessage ''4'' Assistant ''d'',
         plainMessage ''5'' User ''e'', plainMessage ''6'' Assistant ''f'',
         plainMessage ''7'' User ''g'']"
  let ?msgs = "[\<lparr>role = System, content = ''sys''\<rparr>, \<lparr>role = Assistant, content = ''d''\<rparr>,
              \<lparr>role = User, content = ''e''\<rparr>, \<lparr>role = Assistant, content = ''f''\<rparr>,
              \<lparr>role = User, content = ''g''\<rparr>]"
  let ?res = "\<lparr>body = ChatRequest ''m'' ?msgs None, images = None\<rparr>"
  have h1: "buildOllamaRequestBody (Some ?chat) ''m'' ''7'' ''g'' NoAttachment None
              (sampleSettings 5) None = Inr ?res"
    by code_simp
  have h2: "body ?res = ChatRequest ''m'' ?msgs None" by simp
  have sp: "systemPrompt ?chat = Some ''sys''" by (simp add: sampleChat_def)
  have pos: "0 < availableSlots (sampleSettings 5) (Some ''sys'') None" by code_simp
  note buildOllamaRequestBody_bounded [OF h1 h2]
  then show ?thesis using h1 pos sp by simp
qed

text \<open>
  C1 as stated fails when \<open>availableSlots\<close> is 0: with \<open>maxMessages = 1\<close> and a system
  prompt, \<open>reservedSlots\<close> is 2, and the prompt of a chat with no history at all has the
  two reserved entries.
\<close>

theorem buildOllamaRequestBody_exceeds_maxMessages:
  "availableSlots (sampleSettings 1) (Some ''sys'') None = 0 \<and>
   buildOllamaRequestBody
     (Some (sampleChat (Some ''sys'') [plainMessage ''1'' User ''q'']))
     ''m'' ''1'' ''q'' NoAttachment None (sampleSettings 1) None
   = Inr \<lparr>body = ChatRequest ''m''
             [\<lparr>role = System, content = ''sys''\<rparr>, \<lparr>role = User, content = ''q''\<rparr>] None,
           images = None\<rparr>"
  by code_simp


text \<open>
  What \<open>.slice(-availableSlots)\<close> does when \<open>availableSlots\<close> is 0: \<open>-0\<close> is 0, and the
  whole history is selected. With \<open>maxMessages = 1\<close> and no system prompt, a history of
  two messages is sent in full.
\<close>

lemma buildOllamaRequestBody_slice_minus_zero:
  "availableSlots (sampleSettings 1) None None = 0 \<and>
   buildOllamaRequestBody
     (Some (sampleChat None
        [plainMessage ''1'' User ''a'', plainMessage ''2'' Assistant ''b'',
         plainMessage ''3'' User ''q'']))
     ''m'' ''3'' ''q'' NoAttachment None (sampleSettings 1) None
   = Inr \<lparr>body = ChatRequest ''m''
             [\<lparr>role = User, content = ''a''\<rparr>, \<lparr>role = Assistant, content = ''b''\<rparr>,
              \<lparr>role = User, content = ''q''\<rparr>] None,
           images = None\<rparr>"
  by code_simp


section \<open>The stream interpreter: how one fragment changes the turn state\<close>

lemma ensureAssistantMessage_turn:
  "\<exists>mid. snd (ensureAssistantMessage cfg now tt th (st, ts)) = ts\<lparr>assistantMessageId := mid\<rparr>"
proof (cases "assistantMessageId ts")
  case None
  then show ?thesis
    by (cases "addMessage st (cfg_chatId cfg)
                 \<lparr>msg_id = [], msg_content = [], msg_role = Assistant, msg_timestamp = now,
                  attachmentMeta = None, attachmentContent = None, isLoading = Some True,
                  thinkTime = tt, isThinking = Some th,
                  firstTokenMs =
                    (if truthyNum (firstTokenTime ts)
                     then Some (numOf (firstTokenTime ts) - cfg_requestStartTime cfg)
                     else None),
                  responseMs = None, outputChars = None, speedCps = None\<rparr>
                 (cfg_assistantUuid cfg) now")
       (auto simp: ensureAssistantMessage_def)
next
  case (Some x)
  then have "ts\<lparr>assistantMessageId := Some x\<rparr> = ts" by (cases ts) simp
  with Some show ?thesis
    by (auto simp: ensureAssistantMessage_def intro!: exI [of _ "Some x"])
qed

lemma onTick_turn [simp]: "snd (onTick cfg now (st, ts)) = ts"
  by (simp add: onTick_def)

lemma onThinkingChunk_turn:
  "\<exists>mid. snd (onThinkingChunk cfg now c (st, ts)) =
     (if isInThinkBlock ts
      then ts\<lparr>usesThinkingField := True, firstTokenTime := orNow (firstTokenTime ts) now,
              assistantContent := assistantContent ts @ c, assistantMessageId := mid\<rparr>
      else ts\<lparr>usesThinkingField := True, firstTokenTime := orNow (firstTokenTime ts) now,
              assistantContent := assistantContent ts @ ''<think>'' @ c,
              thinkStartTime := Some now, isInThinkBlock := True,
              thinkTimeInterval := Some Running, assistantMessageId := mid\<rparr>)"
proof -
  let ?ts1 = "ts\<lparr>usesThinkingField := True, firstTokenTime := orNow (firstTokenTime ts) now\<rparr>"
  let ?ts2 = "if \<not> isInThinkBlock ?ts1
              then startThinkTimeUpdates
                     (?ts1\<lparr>assistantContent := assistantContent ?ts1 @ ''<think>'',
                          thinkStartTime := Some now, isInThinkBlock := True\<rparr>)
              else ?ts1"
  obtain mid where mid: "snd (ensureAssistantMessage cfg now (Some (now - numOf (thinkStartTime ?ts2))) True (st, ?ts2))
     = ?ts2\<lparr>assistantMessageId := mid\<rparr>"
    using ensureAssistantMessage_turn by blast
  show ?thesis
    apply (rule exI [of _ mid])
    using mid
    by (auto simp: onThinkingChunk_def Let_def startThinkTimeUpdates_def split: prod.splits)
qed


lemma updateThinkStateFromChunk_fields [simp]:
  "assistantContent (updateThinkStateFromChunk now c ts) = assistantContent ts"
  "usesThinkingField (updateThinkStateFromChunk now c ts) = usesThinkingField ts"
  "firstTokenTime (updateThinkStateFromChunk now c ts) = firstTokenTime ts"
  "assistantMessageId (updateThinkStateFromChunk now c ts) = assistantMessageId ts"
  "thinkTagBuffer (updateThinkStateFromChunk now c ts) = slice (- 64) (thinkTagBuffer ts @ c)"
  by (simp_all add: updateThinkStateFromChunk_def Let_def startThinkTimeUpdates_def)

lemma updateThinkStateFromChunk_block:
  "isInThinkBlock (updateThinkStateFromChunk now c ts) =
     ((isInThinkBlock ts \<or> hasOpenTag (slice (- 64) (thinkTagBuffer ts @ c)))
      \<and> \<not> hasCloseTag (slice (- 64) (thinkTagBuffer ts @ c)))"
  by (auto simp: updateThinkStateFromChunk_def Let_def startThinkTimeUpdates_def
        hasOpenTag_def hasCloseTag_def)

lemma onContentChunk_turn:
  "\<exists>mid. snd (onContentChunk cfg now c (st, ts)) =
     (let ts1 = ts\<lparr>firstTokenTime := orNow (firstTokenTime ts) now\<rparr>;
          ts3 = (if usesThinkingField ts
                 then (if isInThinkBlock ts
                       then ts1\<lparr>assistantContent := assistantContent ts @ ''</think>'',
                                isInThinkBlock := False, thinkTimeInterval := None\<rparr>
                       else ts1)
                 else updateThinkStateFromChunk now c ts1)
      in ts3\<lparr>assistantContent := assistantContent ts3 @ c, assistantMessageId := mid\<rparr>)"
proof -
  let ?ts1 = "ts\<lparr>firstTokenTime := orNow (firstTokenTime ts) now\<rparr>"
  let ?ts2 = "if usesThinkingField ?ts1 \<and> isInThinkBlock ?ts1
              then ?ts1\<lparr>assistantContent := assistantContent ?ts1 @ ''</think>'',
                       isInThinkBlock := False, thinkTimeInterval := None\<rparr>
              else ?ts1"
  let ?ts3 = "if \<not> usesThinkingField ?ts2 then updateThinkStateFromChunk now c ?ts2 else ?ts2"
  obtain mid where mid:
    "snd (ensureAssistantMessage cfg now
            (if truthyNum (thinkStartTime ?ts3) \<and> isInThinkBlock ?ts3
             then Some (now - numOf (thinkStartTime ?ts3)) else None)
            (isInThinkBlock ?ts3) (st, ?ts3))
     = ?ts3\<lparr>assistantMessageId := mid\<rparr>"
    using ensureAssistantMessage_turn by blast
  show ?thesis
    apply (rule exI [of _ mid])
    using mid
    by (auto simp: onContentChunk_def Let_def split: prod.splits)
qed

lemma onContentChunk_fields:
  "usesThinkingField (snd (onContentChunk cfg now c (st, ts))) = usesThinkingField ts \<and>
   firstTokenTime (snd (onContentChunk cfg now c (st, ts))) = orNow (firstTokenTime ts) now \<and>
   assistantContent (snd (onContentChunk cfg now c (st, ts))) =
     assistantContent ts @ (if usesThinkingField ts \<and> isInThinkBlock ts then ''</think>'' else []) @ c \<and>
   thinkTagBuffer (snd (onContentChunk cfg now c (st, ts))) =
     (if usesThinkingField ts then thinkTagBuffer ts else slice (- 64) (thinkTagBuffer ts @ c)) \<and>
   isInThinkBlock (snd (onContentChunk cfg now c (st, ts))) =
     (\<not> usesThinkingField ts \<and>
      (isInThinkBlock ts \<or> hasOpenTag (slice (- 64) (thinkTagBuffer ts @ c))) \<and>
      \<not> hasCloseTag (slice (- 64) (thinkTagBuffer ts @ c)))"
proof -
  obtain mid where eq: "snd (onContentChunk cfg now c (st, ts)) =
     (let ts1 = ts\<lparr>firstTokenTime := orNow (firstTokenTime ts) now\<rparr>;
          ts3 = (if usesThinkingField ts
                 then (if isInThinkBlock ts
                       then ts1\<lparr>assistantContent := assistantContent ts @ ''</think>'',
                                isInThinkBlock := False, thinkTimeInterval := None\<rparr>
                       else ts1)
                 else updateThinkStateFromChunk now c ts1)
      in ts3\<lparr>assistantContent := assistantContent ts3 @ c, assistantMessageId := mid\<rparr>)"
    using onContentChunk_turn by blast
  show ?thesis unfolding eq by (simp add: Let_def updateThinkStateFromChunk_block)
qed

lemma onThinkingChunk_fields:
  "usesThinkingField (snd (onThinkingChunk cfg now c (st, ts))) \<and>
   firstTokenTime (snd (onThinkingChunk cfg now c (st, ts))) = orNow (firstTokenTime ts) now \<and>
   assistantContent (snd (onThinkingChunk cfg now c (st, ts))) =
     assistantContent ts @ (if isInThinkBlock ts then [] else ''<think>'') @ c \<and>
   thinkTagBuffer (snd (onThinkingChunk cfg now c (st, ts))) = thinkTagBuffer ts \<and>
   isInThinkBlock (snd (onThinkingChunk cfg now c (st, ts)))"
proof -
  obtain mid where eq: "snd (onThinkingChunk cfg now c (st, ts)) =
     (if isInThinkBlock ts
      then ts\<lparr>usesThinkingField := True, firstTokenTime := orNow (firstTokenTime ts) now,
              assistantContent := assistantContent ts @ c, assistantMessageId := mid\<rparr>
      else ts\<lparr>usesThinkingField := True, firstTokenTime := orNow (firstTokenTime ts) now,
              assistantContent := assistantContent ts @ ''<think>'' @ c,
              thinkStartTime := Some now, isInThinkBlock := True,
              thinkTimeInterval := Some Running, assistantMessageId := mid\<rparr>)"
    using onThinkingChunk_turn by blast
  show ?thesis unfolding eq by simp
qed


section \<open>The rolling tag buffer\<close>

lemma slice_last_n: "0 < n \<Longrightarrow> slice (- int n) xs = drop (length xs - n) xs"
  by (auto simp: slice_def Let_def nat_diff_distrib' max_def)

lemma slice_short: "int (length xs) \<le> n \<Longrightarrow> slice (- n) xs = xs"
  by (auto simp: slice_def Let_def max_def)

lemma slice_rolling:
  assumes "0 < n"
  shows "slice (- int n) (slice (- int n) xs @ c) = slice (- int n) (xs @ c)"
proof (cases "length xs \<le> n")
  case True
  then show ?thesis using assms by (simp add: slice_last_n)
next
  case False
  then have len: "length (drop (length xs - n) xs) = n" by simp
  have "drop (length (drop (length xs - n) xs @ c) - n) (drop (length xs - n) xs @ c)
          = drop (length c) (drop (length xs - n) xs @ c)"
    using len by simp
  also have "\<dots> = drop (length c + (length xs - n)) (xs @ c)"
    using False by (simp add: drop_append)
  also have "\<dots> = drop (length (xs @ c) - n) (xs @ c)"
    using False by (simp add: add.commute)
  finally show ?thesis using assms by (simp add: slice_last_n)
qed

lemma hasOpenTag_mono: "hasOpenTag s \<Longrightarrow> hasOpenTag (s @ c)"
  by (auto simp: hasOpenTag_def list_ex_iff includesStr_sublist sublist_append)

lemma onData_contentData:
  "snd (onData cfg (st, ts) d) =
     (if truthy (d_thinking d) then snd (onThinkingChunk cfg (d_time d) (strOf (d_thinking d)) (st, ts))
      else if \<not> truthy (if cfg_image cfg then d_response d else d_content d) then ts
      else snd (onContentChunk cfg (d_time d)
                  (strOf (if cfg_image cfg then d_response d else d_content d)) (st, ts)))"
  by (simp add: onData_def Let_def)

lemma onEvent_contentData:
  "snd (onEvent cfg (st, ts) (contentData (cfg_image cfg) t c)) =
     (if c = [] then ts else snd (onContentChunk cfg t c (st, ts)))"
  by (simp add: contentData_def onData_def Let_def strOf_def)

lemma onEvent_thinkingData:
  "snd (onEvent cfg (st, ts) (thinkingData t c)) =
     (if c = [] then snd (onEvent cfg (st, ts) (contentData (cfg_image cfg) t [])) else snd (onThinkingChunk cfg t c (st, ts)))"
  by (simp add: thinkingData_def contentData_def onData_def Let_def strOf_def)

lemma tagInv_step:
  assumes "tagInv ts body0"
  shows "tagInv (snd (onEvent cfg (st, ts) (contentData (cfg_image cfg) t c))) (body0 @ c)"
proof (cases "c = []")
  case True
  then show ?thesis using assms by (simp add: onEvent_contentData)
next
  case False
  have buf: "slice (- 64) (slice (- 64) body0 @ c) = slice (- 64) (body0 @ c)"
    using slice_rolling [of 64 body0 c] by simp
  have short: "slice (- 64) (body0 @ c) = body0 @ c" if "length (body0 @ c) \<le> 64"
    using that slice_short [of "body0 @ c" 64] by simp
  show ?thesis
    using assms False hasOpenTag_mono [of body0 c]
    by (auto simp: tagInv_def onEvent_contentData onContentChunk_fields buf short)
qed

lemma runStream_pair: "runStream cfg sts evs = (fst (runStream cfg sts evs), snd (runStream cfg sts evs))"
  by simp

lemma tagInv_run:
  "tagInv ts body0 \<Longrightarrow>
   tagInv (snd (runStream cfg (st, ts) (map (\<lambda>(t, c). contentData (cfg_image cfg) t c) frags)))
          (body0 @ concat (map snd frags))"
proof (induction frags arbitrary: st ts body0)
  case Nil
  then show ?case by (simp add: runStream_def)
next
  case (Cons f frags)
  obtain t c where f: "f = (t, c)" by (cases f)
  obtain st' ts' where step: "onEvent cfg (st, ts) (contentData (cfg_image cfg) t c) = (st', ts')"
    by (cases "onEvent cfg (st, ts) (contentData (cfg_image cfg) t c)")
  have "tagInv ts' (body0 @ c)"
    using tagInv_step [OF Cons.prems, of cfg st t c] step by simp
  from Cons.IH [OF this, of st'] show ?case
    using f step by (simp add: runStream_def)
qed

lemma tagInv_initial: "tagInv initialTurnState []"
  by (simp add: tagInv_def initialTurnState_def slice_def hasOpenTag_def THINK_OPEN_TAGS_def)

lemma tagInv_single:
  "tagInv (snd (runStream cfg (st, initialTurnState) [contentData (cfg_image cfg) t c])) c"
  using tagInv_run [OF tagInv_initial, of cfg st "[(t, c)]"] by simp


section \<open>The reasoning channel\<close>

lemma latched_step:
  assumes "usesThinkingField ts"
  shows "usesThinkingField (snd (onEvent cfg (st, ts) e)) \<and>
         thinkTagBuffer (snd (onEvent cfg (st, ts) e)) = thinkTagBuffer ts"
proof (cases e)
  case (Data d)
  then show ?thesis using assms
    by (simp add: onData_contentData onThinkingChunk_fields onContentChunk_fields)
next
  case (Tick t)
  then show ?thesis using assms by simp
qed

lemma latched_run:
  "usesThinkingField ts \<Longrightarrow>
   usesThinkingField (snd (runStream cfg (st, ts) events)) \<and>
   thinkTagBuffer (snd (runStream cfg (st, ts) events)) = thinkTagBuffer ts"
proof (induction events arbitrary: st ts)
  case Nil
  then show ?case by (simp add: runStream_def)
next
  case (Cons e events)
  obtain st' ts' where step: "onEvent cfg (st, ts) e = (st', ts')"
    by (cases "onEvent cfg (st, ts) e")
  have l: "usesThinkingField ts'" "thinkTagBuffer ts' = thinkTagBuffer ts"
    using latched_step [OF Cons.prems, of cfg st e] step by simp_all
  from Cons.IH [OF l(1), of st'] l(2) show ?case
    using step by (simp add: runStream_def)
qed

lemma channel_step:
  assumes "usesThinkingField ts" and "fragmentText f \<noteq> []"
  shows "usesThinkingField (snd (onEvent cfg (st, ts) (channelEvent (cfg_image cfg) f))) \<and>
         assistantContent (snd (onEvent cfg (st, ts) (channelEvent (cfg_image cfg) f)))
           @ taggedText (isInThinkBlock (snd (onEvent cfg (st, ts) (channelEvent (cfg_image cfg) f)))) fs
         = assistantContent ts @ taggedText (isInThinkBlock ts) (f # fs)"
  using assms
  by (cases f)
     (simp_all add: onEvent_contentData onEvent_thinkingData onThinkingChunk_fields
        onContentChunk_fields)

lemma channel_run:
  "usesThinkingField ts \<Longrightarrow> \<forall>f \<in> set fs. fragmentText f \<noteq> [] \<Longrightarrow>
   assistantContent (snd (runStream cfg (st, ts) (map (channelEvent (cfg_image cfg)) fs)))
     = assistantContent ts @ taggedText (isInThinkBlock ts) fs"
proof (induction fs arbitrary: st ts)
  case Nil
  then show ?case by (simp add: runStream_def)
next
  case (Cons f fs)
  obtain st' ts' where step: "onEvent cfg (st, ts) (channelEvent (cfg_image cfg) f) = (st', ts')"
    by (cases "onEvent cfg (st, ts) (channelEvent (cfg_image cfg) f)")
  have f: "fragmentText f \<noteq> []" and rest: "\<forall>f \<in> set fs. fragmentText f \<noteq> []"
    using Cons.prems(2) by simp_all
  have s: "usesThinkingField ts'"
          "assistantContent ts' @ taggedText (isInThinkBlock ts') fs
             = assistantContent ts @ taggedText (isInThinkBlock ts) (f # fs)"
    using channel_step [OF Cons.prems(1) f, of cfg st fs] step by simp_all
  from Cons.IH [OF s(1) rest, of st'] s(2) show ?case
    using step by (simp add: runStream_def)
qed

lemma channel_first:
  assumes "s \<noteq> []"
  shows "usesThinkingField (snd (onEvent cfg (st, ts) (thinkingData t s))) \<and>
         assistantContent (snd (onEvent cfg (st, ts) (thinkingData t s)))
           @ taggedText (isInThinkBlock (snd (onEvent cfg (st, ts) (thinkingData t s)))) fs
         = assistantContent ts @ taggedText (isInThinkBlock ts) (Reasoning t s # fs)"
  using assms by (simp add: onEvent_thinkingData onThinkingChunk_fields)


section \<open>Metrics\<close>

lemma orNow_bound:
  "(\<forall>f. t0 = Some f \<longrightarrow> f \<le> hi) \<Longrightarrow> now \<le> hi \<Longrightarrow> orNow t0 now = Some f \<Longrightarrow> f \<le> hi"
  by (cases t0) (auto simp: orNow_def)

lemma firstTokenTime_step:
  assumes "\<forall>f. firstTokenTime ts = Some f \<longrightarrow> f \<le> hi" and "eventTime e \<le> hi"
  shows "\<forall>f. firstTokenTime (snd (onEvent cfg (st, ts) e)) = Some f \<longrightarrow> f \<le> hi"
proof (cases e)
  case (Data d)
  then show ?thesis using assms
    by (auto simp: onData_contentData onThinkingChunk_fields onContentChunk_fields
          dest: orNow_bound [rotated 2])
next
  case (Tick t)
  then show ?thesis using assms by simp
qed

lemma firstTokenTime_run:
  "\<forall>f. firstTokenTime ts = Some f \<longrightarrow> f \<le> hi \<Longrightarrow> \<forall>e \<in> set events. eventTime e \<le> hi \<Longrightarrow>
   \<forall>f. firstTokenTime (snd (runStream cfg (st, ts) events)) = Some f \<longrightarrow> f \<le> hi"
proof (induction events arbitrary: st ts)
  case Nil
  then show ?case by (simp add: runStream_def)
next
  case (Cons e events)
  obtain st' ts' where step: "onEvent cfg (st, ts) e = (st', ts')"
    by (cases "onEvent cfg (st, ts) e")
  have "\<forall>f. firstTokenTime ts' = Some f \<longrightarrow> f \<le> hi"
    using firstTokenTime_step [OF Cons.prems(1), of e cfg st] Cons.prems(2) step by simp
  from Cons.IH [OF this, of st'] Cons.prems(2) show ?case
    using step by (simp add: runStream_def)
qed

lemma no_fragment_step:
  "\<not> isFragment (cfg_image cfg) e \<Longrightarrow> snd (onEvent cfg (st, ts) e) = ts"
  by (cases e) (auto simp: onData_contentData)

lemma no_fragment_run:
  "\<forall>e \<in> set events. \<not> isFragment (cfg_image cfg) e \<Longrightarrow>
   snd (runStream cfg (st, ts) events) = ts"
proof (induction events arbitrary: st ts)
  case Nil
  then show ?case by (simp add: runStream_def)
next
  case (Cons e events)
  obtain st' ts' where step: "onEvent cfg (st, ts) e = (st', ts')"
    by (cases "onEvent cfg (st, ts) e")
  have "ts' = ts" using no_fragment_step [of cfg e st ts] Cons.prems step by simp
  with Cons.IH [of st' ts] Cons.prems show ?case
    using step by (simp add: runStream_def)
qed

lemma speedDivisor_floor: "1 / 1000 \<le> speedDivisor ftt now"
  by (simp add: speedDivisor_def)

lemma speedDivisor_at_first_token:
  "now \<le> numOf ftt \<Longrightarrow> speedDivisor ftt now = 1 / 1000"
  by (simp add: speedDivisor_def max_def)

lemma computeMetrics_speed_value:
  "m_speedCps (computeMetrics rst ftt now c)
     = (if truthyNum ftt
        then Some (Finite (of_nat (m_outputChars (computeMetrics rst ftt now c))
                           / speedDivisor ftt now))
        else None)"
proof -
  have "speedDivisor ftt now \<noteq> 0"
    using speedDivisor_floor [of ftt now] by auto
  then show ?thesis by (simp add: computeMetrics_def Let_def jsDivide_def)
qed

lemma speed_bounds:
  "0 \<le> (of_nat n :: rat) / speedDivisor ftt now \<and>
   (of_nat n :: rat) / speedDivisor ftt now \<le> 1000 * of_nat n"
proof -
  let ?d = "speedDivisor ftt now"
  have d: "1 / 1000 \<le> ?d" by (rule speedDivisor_floor)
  then have dpos: "0 < ?d" by (rule less_le_trans [rotated]) simp
  have "(of_nat n :: rat) / ?d \<le> of_nat n / (1 / 1000)"
    using d by (intro divide_left_mono) (auto simp: dpos)
  then show ?thesis using dpos by simp
qed

lemma computeMetrics_latency:
  "m_firstTokenMs (computeMetrics rst ftt now c) = Some f \<Longrightarrow>
   (\<forall>t. ftt = Some t \<longrightarrow> t \<le> now) \<Longrightarrow> f \<le> m_responseMs (computeMetrics rst ftt now c)"
  by (cases ftt) (auto simp: computeMetrics_def Let_def split: if_splits)

lemma computeMetrics_undefined:
  "m_firstTokenMs (computeMetrics rst None now c) = None \<and>
   m_speedCps (computeMetrics rst None now c) = None"
  by (simp add: computeMetrics_def Let_def)


section \<open>Throttled writes\<close>

lemma submit_in_window:
  assumes "windowEnd th = Some d" and "t < d"
  shows "submit w t s th = th\<lparr>pending := Some s\<rparr>"
  using assms by (simp add: submit_def elapse_def Let_def)

lemma burst_in_window:
  "windowEnd th = Some d \<Longrightarrow> \<forall>(t, s) \<in> set burst. t < d \<Longrightarrow>
   foldl (\<lambda>h (t, s). submit w t s h) th burst
     = th\<lparr>pending := (if burst = [] then pending th else Some (snd (last burst)))\<rparr>"
proof (induction burst arbitrary: th)
  case Nil
  then show ?case by simp
next
  case (Cons b burst)
  obtain t s where b: "b = (t, s)" by (cases b)
  have step: "submit w t s th = th\<lparr>pending := Some s\<rparr>"
    using submit_in_window [of th d t w s] Cons.prems b by simp
  have "windowEnd (th\<lparr>pending := Some s\<rparr>) = Some d" using Cons.prems by simp
  from Cons.IH [OF this] Cons.prems(2) show ?case
    using b step by (cases burst) auto
qed

lemma burst_one_write:
  assumes "windowEnd th = None" and "pending th = None"
      and "burst = (t1, s1) # rest"
      and "\<forall>(t, s) \<in> set rest. t < t1 + w"
      and "t1 + w \<le> later"
  shows "elapse later (foldl (\<lambda>h (t, s). submit w t s h) th burst)
           = th\<lparr>written := written th @ [snd (last burst)]\<rparr>"
proof -
  have first: "submit w t1 s1 th = th\<lparr>pending := Some s1, windowEnd := Some (t1 + w)\<rparr>"
    using assms(1) by (simp add: submit_def elapse_def Let_def)
  have "foldl (\<lambda>h (t, s). submit w t s h) (th\<lparr>pending := Some s1, windowEnd := Some (t1 + w)\<rparr>) rest
          = th\<lparr>pending := Some s1, windowEnd := Some (t1 + w)\<rparr>
              \<lparr>pending := (if rest = [] then Some s1 else Some (snd (last rest)))\<rparr>"
    using burst_in_window [of "th\<lparr>pending := Some s1, windowEnd := Some (t1 + w)\<rparr>" "t1 + w" rest w]
          assms(4) by simp
  then show ?thesis
    using first assms(1,2,3,5) by (cases th) (auto simp: elapse_def flush_def)
qed

lemma submitBurst_kind:
  "submitBurst kind burst coord
     = coord(kind := foldl (\<lambda>h (t, s). submit (throttleWindow kind) t s h) (coord kind) burst)"
proof (induction burst arbitrary: coord)
  case Nil
  then show ?case by (simp add: submitBurst_def)
next
  case (Cons b burst)
  obtain t s where b: "b = (t, s)" by (cases b)
  let ?h = "submit (throttleWindow kind) t s (coord kind)"
  let ?c = "coord(kind := ?h)"
  have "submitBurst kind (b # burst) coord = submitBurst kind burst ?c"
    using b by (simp add: submitBurst_def submitKind_def)
  also have "\<dots> = ?c(kind := foldl (\<lambda>h (t, s). submit (throttleWindow kind) t s h) (?c kind) burst)"
    by (rule Cons.IH)
  also have "\<dots> = coord(kind := foldl (\<lambda>h (t, s). submit (throttleWindow kind) t s h) ?h burst)"
    by simp
  finally show ?case using b by simp
qed


section \<open>Claims about the stream interpreter\<close>

text \<open>
  C4, amended. Feed a fresh interpreter answer fragments, in order, or their
  concatenation as one fragment. The accumulated text is the concatenation in both cases,
  and the rolling tag buffer is the same. When the whole text has at most 64 characters,
  the whole classification state is the same, whatever the split points: this is the case
  of the fragments \<open><th\<close>, \<open>ink>reasoning</th\<close>, \<open>ink> answer\<close>.
\<close>

theorem fragmentation_invariance_up_to_buffer:
  "assistantContent (snd (runStream cfg (st, initialTurnState)
       (map (\<lambda>(t, c). contentData (cfg_image cfg) t c) frags))) = concat (map snd frags) \<and>
   thinkTagBuffer (snd (runStream cfg (st, initialTurnState)
       (map (\<lambda>(t, c). contentData (cfg_image cfg) t c) frags)))
     = thinkTagBuffer (snd (runStream cfg (st', initialTurnState)
         [contentData (cfg_image cfg) t0 (concat (map snd frags))])) \<and>
   (length (concat (map snd frags)) \<le> 64 \<longrightarrow>
      classification (snd (runStream cfg (st, initialTurnState)
         (map (\<lambda>(t, c). contentData (cfg_image cfg) t c) frags)))
      = classification (snd (runStream cfg (st', initialTurnState)
         [contentData (cfg_image cfg) t0 (concat (map snd frags))])))"
  using tagInv_run [OF tagInv_initial, of cfg st frags]
        tagInv_single [of cfg st' t0 "concat (map snd frags)"]
  by (simp add: tagInv_def classification_def)

theorem fragmentation_invariance_up_to_buffer_witness:
  "length (concat (map snd [(1100, ''<th''), (1200, ''ink>reasoning</th''), (1300::int, ''ink> answer'')])) \<le> 64
   \<and> classification (snd (runStream sampleConfig (sampleStore [sampleChat None []], initialTurnState)
        [contentData False 1100 ''<th'', contentData False 1200 ''ink>reasoning</th'',
         contentData False 1300 ''ink> answer'']))
     = (False, ''<think>reasoning</think> answer'',
        ''<think>'' @ ''reasoning'' @ ''</think>'' @ '' answer'', False)
   \<and> classification (snd (runStream sampleConfig (sampleStore [sampleChat None []], initialTurnState)
        [contentData False 1100 ''<think>reasoning</think> answer'']))
     = (False, ''<think>reasoning</think> answer'',
        ''<think>'' @ ''reasoning'' @ ''</think>'' @ '' answer'', False)"
proof -
  let ?st = "sampleStore [sampleChat None []]"
  have img: "cfg_image sampleConfig = False" by (simp add: sampleConfig_def)
  have single: "classification (snd (runStream sampleConfig (?st, initialTurnState)
        [contentData False 1100 ''<think>reasoning</think> answer'']))
     = (False, ''<think>reasoning</think> answer'',
        ''<think>'' @ ''reasoning'' @ ''</think>'' @ '' answer'', False)"
    by code_simp
  note fragmentation_invariance_up_to_buffer
         [of sampleConfig ?st "[(1100, ''<th''), (1200, ''ink>reasoning</th''), (1300, ''ink> answer'')]"
             ?st 1100]
  then show ?thesis using single img by simp
qed

text \<open>
  C4 as stated fails for longer texts: the buffer is cut to its last 64 characters before
  it is searched. An open marker followed by 64 more characters is seen when it arrives
  as a fragment of its own and is lost when all arrives as one fragment; the interpreter
  ends in a reasoning block in the one case and outside it in the other.
\<close>

theorem fragmentation_changes_classification:
  "isInThinkBlock (snd (runStream sampleConfig (sampleStore [sampleChat None []], initialTurnState)
      [contentData False 1100 ''<think>'', contentData False 1200 (replicate 64 (CHR ''x''))]))
   \<and> \<not> isInThinkBlock (snd (runStream sampleConfig (sampleStore [sampleChat None []], initialTurnState)
      [contentData False 1100 (''<think>'' @ replicate 64 (CHR ''x''))]))"
  by code_simp

text \<open>
  C5, amended. A fragment with a \<open>thinking\<close> field switches the turn to the reasoning
  channel, in every state, also after inline markers have been seen. Once the channel is
  in use it stays in use for the rest of the turn and the tag buffer never changes: inline
  markers in content are not interpreted. A content fragment then closes an open
  reasoning block and is appended as it is.
\<close>

theorem reasoning_channel_latches:
  "(truthy (d_thinking d) \<longrightarrow> usesThinkingField (snd (onData cfg (st, ts) d))) \<and>
   (usesThinkingField ts \<longrightarrow>
      usesThinkingField (snd (runStream cfg (st, ts) events)) \<and>
      thinkTagBuffer (snd (runStream cfg (st, ts) events)) = thinkTagBuffer ts) \<and>
   (usesThinkingField ts \<and> c \<noteq> [] \<longrightarrow>
      \<not> isInThinkBlock (snd (onEvent cfg (st, ts) (contentData (cfg_image cfg) t c))) \<and>
      assistantContent (snd (onEvent cfg (st, ts) (contentData (cfg_image cfg) t c)))
        = assistantContent ts @ (if isInThinkBlock ts then ''</think>'' else []) @ c)"
  using latched_run [of ts cfg st events]
  by (simp add: onData_contentData onThinkingChunk_fields onEvent_contentData
        onContentChunk_fields)

theorem reasoning_channel_latches_witness:
  "usesThinkingField
     (snd (onEvent sampleConfig (sampleStore [sampleChat None []], initialTurnState)
             (thinkingData 1100 ''hm'')))
   \<and> classification
       (snd (runStream sampleConfig
               (onEvent sampleConfig (sampleStore [sampleChat None []], initialTurnState)
                  (thinkingData 1100 ''hm''))
               [contentData False 1200 ''a <think> b'']))
     = (False, [], ''<think>hm</think>a <think> b'', True)"
proof -
  let ?sts = "onEvent sampleConfig (sampleStore [sampleChat None []], initialTurnState)
                (thinkingData 1100 ''hm'')"
  have latched: "usesThinkingField (snd ?sts)" by code_simp
  have ev: "classification (snd (runStream sampleConfig ?sts [contentData False 1200 ''a <think> b'']))
     = (False, [], ''<think>hm</think>a <think> b'', True)"
    by code_simp
  note reasoning_channel_latches
         [of "\<lparr>d_time = 1100, d_response = None, d_thinking = Some ''hm'', d_content = None\<rparr>"
             sampleConfig "sampleStore [sampleChat None []]" initialTurnState
             "[contentData False 1200 ''a <think> b'']" "''x''" 1200]
  then show ?thesis using latched ev by (simp add: thinkingData_def)
qed

text \<open>
  C5 as stated fails: a tag-based signal does not fix the encoding. Below, the first
  fragment opens and closes a reasoning block by inline markers (the reasoning timer
  starts at 1100); the later \<open>thinking\<close> fragment is still treated as the reasoning
  channel, with both markers synthesized around it.
\<close>

theorem tag_signal_does_not_latch:
  "thinkStartTime (snd (runStream sampleConfig (sampleStore [sampleChat None []], initialTurnState)
      [contentData False 1100 ''<think>a</think>b'']))
     = Some 1100
   \<and> classification (snd (runStream sampleConfig (sampleStore [sampleChat None []], initialTurnState)
      [contentData False 1100 ''<think>a</think>b'', thinkingData 1200 ''x'',
       contentData False 1300 ''y'']))
     = (False, ''<think>a</think>b'', ''<think>a</think>b<think>x</think>y'', True)"
  by code_simp

text \<open>
  C6. For every channel-encoded stream of non-empty fragments, fed to an interpreter that
  already uses the reasoning channel or starting with a reasoning fragment, the
  accumulated text grows by the tagged shape of the stream: \<open><think>\<close> where reasoning
  opens, \<open></think>\<close> where answer text follows reasoning.
\<close>

theorem channel_stream_has_tagged_shape:
  assumes "\<forall>f \<in> set fs. fragmentText f \<noteq> []"
      and "usesThinkingField ts \<or> (\<exists>t s rest. fs = Reasoning t s # rest)"
  shows "assistantContent (snd (runStream cfg (st, ts) (map (channelEvent (cfg_image cfg)) fs)))
           = assistantContent ts @ taggedText (isInThinkBlock ts) fs"
proof (cases "usesThinkingField ts")
  case True
  then show ?thesis using assms(1) by (rule channel_run)
next
  case False
  then obtain t s rest where fs: "fs = Reasoning t s # rest" using assms(2) by blast
  obtain st' ts' where step: "onEvent cfg (st, ts) (thinkingData t s) = (st', ts')"
    by (cases "onEvent cfg (st, ts) (thinkingData t s)")
  have s: "s \<noteq> []" and rest: "\<forall>f \<in> set rest. fragmentText f \<noteq> []"
    using assms(1) fs by simp_all
  have first: "usesThinkingField ts'"
              "assistantContent ts' @ taggedText (isInThinkBlock ts') rest
                 = assistantContent ts @ taggedText (isInThinkBlock ts) (Reasoning t s # rest)"
    using channel_first [OF s, of cfg st ts t rest] step by simp_all
  from channel_run [OF first(1) rest, of cfg st'] first(2) show ?thesis
    using fs step by (simp add: runStream_def)
qed

theorem channel_stream_has_tagged_shape_witness:
  "list_all (\<lambda>f. fragmentText f \<noteq> [])
     [Reasoning 1100 ''think '', Reasoning 1200 ''more'', Answer 1300 ''the '',
      Answer 1400 ''answer'']
   \<and> assistantContent
        (snd (runStream sampleConfig (sampleStore [sampleChat None []], initialTurnState)
                [thinkingData 1100 ''think '', thinkingData 1200 ''more'',
                 contentData False 1300 ''the '', contentData False 1400 ''answer'']))
      = ''<think>'' @ ''think more'' @ ''</think>'' @ ''the answer''"
proof -
  have h1: "\<forall>f \<in> set [Reasoning 1100 ''think '', Reasoning 1200 ''more'', Answer 1300 ''the '',
                 Answer 1400 ''answer'']. fragmentText f \<noteq> []"
    by simp
  have h2: "usesThinkingField initialTurnState \<or>
            (\<exists>t s rest. [Reasoning 1100 ''think '', Reasoning 1200 ''more'', Answer 1300 ''the '',
                 Answer 1400 ''answer''] = Reasoning t s # rest)"
    by simp
  note channel_stream_has_tagged_shape
         [OF h1 h2, of sampleConfig "sampleStore [sampleChat None []]"]
  then show ?thesis
    by (simp add: sampleConfig_def initialTurnState_def)
qed

text \<open>
  C9, amended. Take any events of a turn, any time \<open>now\<close>, and the metrics computed at
  \<open>now\<close> from the state the events lead to; the metrics computed inside the callback of
  an event are the case where \<open>now\<close> is the time of that event. The divisor of
  \<open>speedCps\<close> is at least 1/1000 of a second. \<open>speedCps\<close>, when defined, is the finite
  number of output characters divided by that divisor, at least 0 and at most 1000 per
  output character; when \<open>now\<close> is the time of the first fragment, or before it, the
  divisor is 1/1000 and \<open>speedCps\<close> is 1000 times the number of output characters.
  Provided the clock read by \<open>Date.now()\<close> has not run backwards, that is no event is
  timed after \<open>now\<close>, \<open>firstTokenMs\<close>, when defined, is at most \<open>responseMs\<close>. As
  long as no fragment has been observed, \<open>firstTokenMs\<close> and \<open>speedCps\<close> are undefined.
\<close>

theorem metrics_are_sound:
  "let ts = snd (runStream cfg (st, initialTurnState) events);
       m = computeMetrics (cfg_requestStartTime cfg) (firstTokenTime ts) now (assistantContent ts);
       d = speedDivisor (firstTokenTime ts) now
   in 1 / 1000 \<le> d \<and>
      (\<forall>v. m_speedCps m = Some v \<longrightarrow>
         v = Finite (of_nat (m_outputChars m) / d) \<and>
         0 \<le> of_nat (m_outputChars m) / d \<and>
         of_nat (m_outputChars m) / d \<le> 1000 * of_nat (m_outputChars m)) \<and>
      (truthyNum (firstTokenTime ts) \<and> now \<le> numOf (firstTokenTime ts) \<longrightarrow>
         d = 1 / 1000 \<and> m_speedCps m = Some (Finite (1000 * of_nat (m_outputChars m)))) \<and>
      ((\<forall>e \<in> set events. eventTime e \<le> now) \<longrightarrow>
         (\<forall>f. m_firstTokenMs m = Some f \<longrightarrow> f \<le> m_responseMs m)) \<and>
      ((\<forall>e \<in> set events. \<not> isFragment (cfg_image cfg) e) \<longrightarrow>
         m_firstTokenMs m = None \<and> m_speedCps m = None)"
proof -
  let ?ts = "snd (runStream cfg (st, initialTurnState) events)"
  let ?m = "computeMetrics (cfg_requestStartTime cfg) (firstTokenTime ?ts) now (assistantContent ?ts)"
  let ?d = "speedDivisor (firstTokenTime ?ts) now"
  have floor: "1 / 1000 \<le> ?d" by (rule speedDivisor_floor)
  have speed: "\<forall>v. m_speedCps ?m = Some v \<longrightarrow>
         v = Finite (of_nat (m_outputChars ?m) / ?d) \<and>
         0 \<le> of_nat (m_outputChars ?m) / ?d \<and>
         of_nat (m_outputChars ?m) / ?d \<le> 1000 * of_nat (m_outputChars ?m)"
    using speed_bounds [of "m_outputChars ?m" "firstTokenTime ?ts" now]
    by (auto simp: computeMetrics_speed_value split: if_splits)
  have first: "?d = 1 / 1000 \<and> m_speedCps ?m = Some (Finite (1000 * of_nat (m_outputChars ?m)))"
    if at_first: "truthyNum (firstTokenTime ?ts) \<and> now \<le> numOf (firstTokenTime ?ts)"
  proof -
    have deq: "?d = 1 / 1000"
      using at_first by (intro speedDivisor_at_first_token) simp
    have "m_speedCps ?m = Some (Finite (of_nat (m_outputChars ?m) / ?d))"
      using at_first by (simp add: computeMetrics_speed_value)
    then show ?thesis by (simp add: deq)
  qed
  have latency: "\<forall>f. m_firstTokenMs ?m = Some f \<longrightarrow> f \<le> m_responseMs ?m"
    if clock: "\<forall>e \<in> set events. eventTime e \<le> now"
  proof -
    have "\<forall>f. firstTokenTime ?ts = Some f \<longrightarrow> f \<le> now"
      using firstTokenTime_run [of initialTurnState now events cfg st] clock
      by (simp add: initialTurnState_def)
    then show ?thesis
      using computeMetrics_latency
              [of "cfg_requestStartTime cfg" "firstTokenTime ?ts" now "assistantContent ?ts"]
      by blast
  qed
  have none: "m_firstTokenMs ?m = None \<and> m_speedCps ?m = None"
    if "\<forall>e \<in> set events. \<not> isFragment (cfg_image cfg) e"
  proof -
    have "firstTokenTime ?ts = None"
      using no_fragment_run [OF that, of st initialTurnState] by (simp add: initialTurnState_def)
    then show ?thesis
      using computeMetrics_undefined [of "cfg_requestStartTime cfg" now "assistantContent ?ts"]
      by simp
  qed
  show ?thesis
    unfolding Let_def using floor speed first latency none by blast
qed

text \<open>
  The witness is taken at \<open>now == firstFragmentTime\<close>, inside the callback of the first
  fragment: the difference of the two times is 0, the divisor is the floor 1/1000, and
  three characters give 3000 characters per second.
\<close>

theorem metrics_are_sound_witness:
  "list_all (\<lambda>e. eventTime e \<le> 1100) [contentData False 1100 ''par'']
   \<and> computeMetrics (cfg_requestStartTime sampleConfig)
       (firstTokenTime (snd (runStream sampleConfig
          (sampleStore [sampleChat None []], initialTurnState) [contentData False 1100 ''par''])))
       1100
       (assistantContent (snd (runStream sampleConfig
          (sampleStore [sampleChat None []], initialTurnState) [contentData False 1100 ''par''])))
     = \<lparr>m_firstTokenMs = Some 90, m_responseMs = 90, m_outputChars = 3,
        m_speedCps = Some (Finite 3000)\<rparr>
   \<and> speedDivisor
       (firstTokenTime (snd (runStream sampleConfig
          (sampleStore [sampleChat None []], initialTurnState) [contentData False 1100 ''par''])))
       1100
     = 1 / 1000
   \<and> (90::int) \<le> 90"
proof -
  let ?events = "[contentData False 1100 ''par'']"
  let ?ts = "snd (runStream sampleConfig (sampleStore [sampleChat None []], initialTurnState) ?events)"
  have ftt: "firstTokenTime ?ts = Some 1100" by code_simp
  have clock: "list_all (\<lambda>e. eventTime e \<le> 1100) ?events" by (simp add: contentData_def)
  have m: "computeMetrics (cfg_requestStartTime sampleConfig) (firstTokenTime ?ts) 1100
             (assistantContent ?ts)
           = \<lparr>m_firstTokenMs = Some 90, m_responseMs = 90, m_outputChars = 3,
              m_speedCps = Some (Finite 3000)\<rparr>"
    by code_simp
  have at_first: "truthyNum (firstTokenTime ?ts) \<and> 1100 \<le> numOf (firstTokenTime ?ts)"
    by (simp add: ftt)
  note metrics_are_sound [of sampleConfig "sampleStore [sampleChat None []]" ?events 1100]
  then have d: "speedDivisor (firstTokenTime ?ts) 1100 = 1 / 1000"
    using at_first unfolding Let_def by blast
  show ?thesis using clock m d by simp
qed

text \<open>
  C9 as stated fails when the clock steps back during the turn. Below, the first fragment
  is handled at 1100 and the second at 1050 on the clock, the request having started at
  1010: the metrics computed in the callback of the second fragment, and stored in the
  assistant message, have a first-token latency of 90 ms and an elapsed time of 40 ms.
  The divisor is still the floor, and \<open>speedCps\<close> is finite.
\<close>

theorem metrics_clock_steps_back:
  "computeMetrics (cfg_requestStartTime sampleConfig)
     (firstTokenTime (snd (runStream sampleConfig
        (sampleStore [sampleChat None []], initialTurnState)
        [contentData False 1100 ''par'', contentData False 1050 ''tial''])))
     1050
     (assistantContent (snd (runStream sampleConfig
        (sampleStore [sampleChat None []], initialTurnState)
        [contentData False 1100 ''par'', contentData False 1050 ''tial''])))
   = \<lparr>m_firstTokenMs = Some 90, m_responseMs = 40, m_outputChars = 7,
      m_speedCps = Some (Finite 7000)\<rparr>
   \<and> map firstTokenMs (concat (map messages (chats (fst (runStream sampleConfig
        (sampleStore [sampleChat None []], initialTurnState)
        [contentData False 1100 ''par'', contentData False 1050 ''tial''])))))
     = [Some 90]
   \<and> map responseMs (concat (map messages (chats (fst (runStream sampleConfig
        (sampleStore [sampleChat None []], initialTurnState)
        [contentData False 1100 ''par'', contentData False 1050 ''tial''])))))
     = [Some 40]
   \<and> \<not> (90::int) \<le> 40"
  by code_simp


section \<open>Claims about sendMessage\<close>

text \<open>
  C7. If no model is available (the selected model falls back to the first available
  one, so with non-empty model names none is selected only when none is available), or
  the text is empty after trimming and no attachment is given, \<open>sendMessage\<close> fails
  with an error, issues no request and no write, and leaves the chat list and the
  active chat as they were: no message is added.
\<close>

theorem sendMessage_fails_fast:
  assumes "models st = [] \<or> (getSelectedModel st = [] \<and> [] \<notin> set (models st))
           \<or> (trim contentArg = [] \<and> attachmentArg = NoAttachment)"
  shows "snd (sendMessage inp st chatId contentArg attachmentArg)
           \<in> {Inl NoActiveChat, Inl NoModelsAvailable, Inl ContentOrAttachmentRequired} \<and>
         chats (fst (sendMessage inp st chatId contentArg attachmentArg)) = chats st \<and>
         activeChat (fst (sendMessage inp st chatId contentArg attachmentArg)) = activeChat st \<and>
         effects (fst (sendMessage inp st chatId contentArg attachmentArg)) = effects st \<and>
         error (fst (sendMessage inp st chatId contentArg attachmentArg)) \<noteq> None"
proof -
  have "models st = [] \<or> (trim contentArg = [] \<and> attachmentArg = NoAttachment)"
    using assms by (cases "models st") (auto simp: getSelectedModel_def split: if_splits)
  then show ?thesis
    by (auto simp: sendMessage_def failWith_def split: option.splits)
qed

theorem sendMessage_fails_fast_witness:
  "(trim ''   '' = [] \<and> NoAttachment = NoAttachment)
   \<and> sendMessage (sampleInput [contentData False 1100 ''hi''] (Completed 1200))
       (sampleStore [sampleChat None []]) ''chat-1'' ''   '' NoAttachment
     = ((sampleStore [sampleChat None []])\<lparr>error := Some ContentOrAttachmentRequired\<rparr>,
        Inl ContentOrAttachmentRequired)
   \<and> chats ((sampleStore [sampleChat None []])\<lparr>error := Some ContentOrAttachmentRequired\<rparr>)
     = chats (sampleStore [sampleChat None []])"
proof -
  have h: "models (sampleStore [sampleChat None []]) = []
           \<or> (getSelectedModel (sampleStore [sampleChat None []]) = []
               \<and> [] \<notin> set (models (sampleStore [sampleChat None []])))
           \<or> (trim ''   '' = [] \<and> NoAttachment = NoAttachment)"
    by (simp add: trim_def isWhiteSpace_def)
  have ev: "sendMessage (sampleInput [contentData False 1100 ''hi''] (Completed 1200))
       (sampleStore [sampleChat None []]) ''chat-1'' ''   '' NoAttachment
     = ((sampleStore [sampleChat None []])\<lparr>error := Some ContentOrAttachmentRequired\<rparr>,
        Inl ContentOrAttachmentRequired)"
    by code_simp
  note sendMessage_fails_fast
         [OF h, of "sampleInput [contentData False 1100 ''hi''] (Completed 1200)" "''chat-1''"]
  then show ?thesis using ev by (simp add: trim_def isWhiteSpace_def)
qed

text \<open>
  The guard tests \<open>!attachmentContent\<close>: the empty object, which the input component
  passes when nothing is attached, is not "no attachment" for it. With blank text and the
  empty object the turn starts: an empty user message is added and a request is issued.
\<close>

lemma sendMessage_empty_object_passes_guard:
  "(let r = sendMessage (sampleInput [contentData False 1100 ''hi''] (Completed 1200))
              (sampleStore [sampleChat None []]) ''chat-1'' ''   '' EmptyObject
    in (snd r,
        map (\<lambda>m. (msg_id m, msg_content m, isLoading m)) (concat (map messages (chats (fst r)))),
        filter (\<lambda>e. case e of InferenceRequest b \<Rightarrow> True | _ \<Rightarrow> False) (effects (fst r))))
   = (Inr (), [(''u-1'', [], None), (''a-1'', ''hi'', Some False)],
      [InferenceRequest (ChatRequest ''m'' [] None)])"
  by code_simp

text \<open>
  C2, at the failing input. The stream delivers the content fragment \<open>partial\<close> and then
  the transport fails. \<open>sendMessage\<close> records the error and throws it again; the
  assistant message keeps the accumulated content \<open>partial\<close>, and its loading flag is
  still true: nothing on this path sets it to false, as the end of the stream, \<open>cleanup\<close>
  and \<open>stopGeneration\<close> do on theirs.
\<close>

theorem sendMessage_transport_error_leaves_message_loading:
  "(let r = sendMessage (sampleInput [contentData False 1100 ''partial''] (Failed 1200))
              (sampleStore [sampleChat None []]) ''chat-1'' ''hello'' NoAttachment
    in (snd r,
        map (\<lambda>m. (msg_id m, msg_content m, isLoading m)) (concat (map messages (chats (fst r))))))
   = (Inl TransportError, [(''u-1'', ''hello'', None), (''a-1'', ''partial'', Some True)])"
  by code_simp


text \<open>
  The same turn on the other two ways out: when the stream completes, and when the user
  stops it, the assistant message ends with its loading flag false.
\<close>

lemma sendMessage_completed_clears_loading:
  "(let r = sendMessage (sampleInput [contentData False 1100 ''partial''] (Completed 1200))
              (sampleStore [sampleChat None []]) ''chat-1'' ''hello'' NoAttachment
    in (snd r,
        map (\<lambda>m. (msg_id m, msg_content m, isLoading m)) (concat (map messages (chats (fst r))))))
   = (Inr (), [(''u-1'', ''hello'', None), (''a-1'', ''partial'', Some False)])"
  by code_simp

lemma sendMessage_stopped_clears_loading:
  "(let r = sendMessage (sampleInput [contentData False 1100 ''partial''] (Stopped 1200))
              (sampleStore [sampleChat None []]) ''chat-1'' ''hello'' NoAttachment
    in (snd r,
        map (\<lambda>m. (msg_id m, msg_content m, isLoading m)) (concat (map messages (chats (fst r))))))
   = (Inr (), [(''u-1'', ''hello'', None), (''a-1'', ''partial'', Some False)])"
  by code_simp


section \<open>Claims about throttled persistence\<close>

text \<open>
  C8. For every write kind whose wrapper has no window open and nothing pending, and every
  burst of one or more submissions of that kind in which all submissions after the first
  fall before the end of the window that the first one opens: once the window has elapsed,
  exactly one write has been added to the backing store, the written snapshot is the last
  submitted one, nothing is pending, and the wrappers of the other kinds are untouched.
\<close>

theorem throttled_burst_is_one_write:
  assumes "windowEnd (coord kind) = None" and "pending (coord kind) = None"
      and "burst = (t1, s1) # rest"
      and "\<forall>(t, s) \<in> set rest. t < t1 + throttleWindow kind"
      and "t1 + throttleWindow kind \<le> later"
  shows "written (elapseAll later (submitBurst kind burst coord) kind)
           = written (coord kind) @ [snd (last burst)] \<and>
         last (written (elapseAll later (submitBurst kind burst coord) kind)) = snd (last burst) \<and>
         pending (elapseAll later (submitBurst kind burst coord) kind) = None \<and>
         (\<forall>k. k \<noteq> kind \<longrightarrow>
            elapseAll later (submitBurst kind burst coord) k = elapse later (coord k))"
  using burst_one_write [OF assms(1,2,3,4,5)] assms(2)
  by (simp add: elapseAll_def submitBurst_kind)

theorem throttled_burst_is_one_write_witness:
  "list_all (\<lambda>(t, s). t < 1000 + throttleWindow SaveMessageKind)
     [(1100, ''ab''), (1700, ''abc'')]
   \<and> 1000 + throttleWindow SaveMessageKind \<le> 2000
   \<and> written (elapseAll 2000
        (submitBurst SaveMessageKind [(1000, ''a''), (1100, ''ab''), (1700, ''abc'')] (\<lambda>k. idle))
        SaveMessageKind)
     = [''abc'']"
proof -
  have h1: "windowEnd ((\<lambda>k. idle :: string Throttled) SaveMessageKind) = None"
    by (simp add: idle_def)
  have h2: "pending ((\<lambda>k. idle :: string Throttled) SaveMessageKind) = None"
    by (simp add: idle_def)
  have h3: "[(1000, ''a''), (1100, ''ab''), (1700, ''abc'')]
              = (1000, ''a'') # [(1100, ''ab''), (1700::int, ''abc'')]"
    by simp
  have h4: "\<forall>(t, s) \<in> set [(1100, ''ab''), (1700, ''abc'')].
              t < 1000 + throttleWindow SaveMessageKind"
    by simp
  have h5: "1000 + throttleWindow SaveMessageKind \<le> 2000" by simp
  note throttled_burst_is_one_write [OF h1 h2 h3 h4 h5]
  then show ?thesis using h4 h5 by (simp add: idle_def)
qed

end
